theory Spec2Isabelle
  imports Complex_Main "HOL-Library.Word"
begin

unbundle bit_operations_syntax

section \<open>JavaScript strings and bytes\<close>

text \<open>
  A JavaScript string is a sequence of UTF-16 code units; the data channel carries a
  \<^verbatim>\<open>Uint8Array\<close>. ASCII literals of the source are written \<open>js ''...''\<close>.
\<close>

type_synonym byte = "8 word"
type_synonym jschar = "16 word"
type_synonym jsstring = "jschar list"

definition js :: "string \<Rightarrow> jsstring" where
  "js s = map of_char s"

text \<open>\<^verbatim>\<open>String(n)\<close> for a non-negative integer below \<open>10^21\<close>: its decimal digits.\<close>

fun decimal :: "nat \<Rightarrow> jsstring" where
  "decimal n = (if n < 10 then [of_nat (48 + n)] else decimal (n div 10) @ [of_nat (48 + n mod 10)])"

declare decimal.simps [simp del]

definition is_high_surrogate :: "jschar \<Rightarrow> bool" where
  "is_high_surrogate c = (0xD800 \<le> c \<and> c \<le> 0xDBFF)"

definition is_low_surrogate :: "jschar \<Rightarrow> bool" where
  "is_low_surrogate c = (0xDC00 \<le> c \<and> c \<le> 0xDFFF)"

definition is_surrogate :: "jschar \<Rightarrow> bool" where
  "is_surrogate c = (0xD800 \<le> c \<and> c \<le> 0xDFFF)"

definition is_digit :: "jschar \<Rightarrow> bool" where
  "is_digit c = (0x30 \<le> c \<and> c \<le> 0x39)"

definition digits_value :: "jsstring \<Rightarrow> nat" where
  "digits_value ds = foldl (\<lambda>n c. 10 * n + (unat c - 48)) 0 ds"

text \<open>
  \<^verbatim>\<open>String.prototype.trim\<close> strips WhiteSpace and LineTerminator code units
  (ECMA-262, 22.1.3.32) from both ends.
\<close>

definition is_js_whitespace :: "jschar \<Rightarrow> bool" where
  "is_js_whitespace c =
     (c = 0x09 \<or> c = 0x0A \<or> c = 0x0B \<or> c = 0x0C \<or> c = 0x0D \<or> c = 0x20 \<or> c = 0xA0
      \<or> c = 0x1680 \<or> (0x2000 \<le> c \<and> c \<le> 0x200A) \<or> c = 0x2028 \<or> c = 0x2029
      \<or> c = 0x202F \<or> c = 0x205F \<or> c = 0x3000 \<or> c = 0xFEFF)"

definition trim :: "jsstring \<Rightarrow> jsstring" where
  "trim s = rev (dropWhile is_js_whitespace (rev (dropWhile is_js_whitespace s)))"

text \<open>\<^verbatim>\<open>s.includes(t)\<close>: \<open>t\<close> occurs in \<open>s\<close> as a contiguous run.\<close>

fun starts_with :: "jsstring \<Rightarrow> jsstring \<Rightarrow> bool" where
  "starts_with s [] = True"
| "starts_with [] (c # t) = False"
| "starts_with (d # s) (c # t) = (d = c \<and> starts_with s t)"

fun includes_str :: "jsstring \<Rightarrow> jsstring \<Rightarrow> bool" where
  "includes_str [] t = (t = [])"
| "includes_str (c # s) t = (starts_with (c # s) t \<or> includes_str s t)"

section \<open>JSON values\<close>

text \<open>
  A number is kept as the exact value of its literal, \<open>\<plusminus> mantissa \<times> 10^exponent\<close>;
  the program only ever tests numbers for truthiness.
\<close>

datatype jnum = JNum (negative: bool) (mantissa: nat) (exponent: int)

datatype json =
    JNull
  | JBool bool
  | JNumber jnum
  | JString jsstring
  | JArray "json list"
  | JObject "(jsstring \<times> json) list"

text \<open>
  Reading a property the program names (\<^verbatim>\<open>type\<close>, \<^verbatim>\<open>message\<close>, \<^verbatim>\<open>text\<close>,
  \<^verbatim>\<open>images\<close>, \<^verbatim>\<open>token\<close>) of a parsed JSON value other than \<^verbatim>\<open>null\<close>: on an
  object it is the own property, the last one written when the key is repeated, else
  \<^verbatim>\<open>undefined\<close> (\<open>None\<close>); on a string, number, boolean or array it is
  \<^verbatim>\<open>undefined\<close>.
\<close>

definition own_prop :: "json \<Rightarrow> jsstring \<Rightarrow> json option" where
  "own_prop data k = (case data of JObject members \<Rightarrow> map_of (rev members) k | _ \<Rightarrow> None)"

text \<open>The read \<^verbatim>\<open>data.k\<close>: on \<^verbatim>\<open>null\<close> it throws a TypeError, the outer \<open>None\<close>.\<close>

definition get_prop :: "json \<Rightarrow> jsstring \<Rightarrow> json option option" where
  "get_prop data k = (if data = JNull then None else Some (own_prop data k))"

text \<open>
  JavaScript truthiness of a JSON value. A number is falsy when it is zero as a
  binary64, that is when its exact value is at most \<open>2^-1075\<close> in magnitude.
\<close>

definition num_is_zero :: "jnum \<Rightarrow> bool" where
  "num_is_zero n =
     (mantissa n = 0
      \<or> (exponent n < 0 \<and> mantissa n * 2 ^ 1075 \<le> 10 ^ nat (- exponent n)))"

definition truthy :: "json option \<Rightarrow> bool" where
  "truthy v =
     (case v of
        None \<Rightarrow> False
      | Some JNull \<Rightarrow> False
      | Some (JBool b) \<Rightarrow> b
      | Some (JNumber n) \<Rightarrow> \<not> num_is_zero n
      | Some (JString s) \<Rightarrow> s \<noteq> []
      | Some (JArray _) \<Rightarrow> True
      | Some (JObject _) \<Rightarrow> True)"

section \<open>Encoding a UserCommand: \<^verbatim>\<open>JSON.stringify\<close> and \<^verbatim>\<open>TextEncoder\<close>\<close>

definition hex_digit :: "nat \<Rightarrow> jschar" where
  "hex_digit n = (if n < 10 then of_nat (48 + n) else of_nat (87 + n))"

text \<open>\<^verbatim>\<open>UnicodeEscape\<close>: backslash, \<open>u\<close> and four lower-case hexadecimal digits.\<close>

definition UnicodeEscape :: "jschar \<Rightarrow> jsstring" where
  "UnicodeEscape c =
     (let n = unat c
      in [0x5C, 0x75, hex_digit (n div 4096), hex_digit (n div 256 mod 16),
          hex_digit (n div 16 mod 16), hex_digit (n mod 16)])"

text \<open>One code unit that is not part of a surrogate pair, as \<^verbatim>\<open>QuoteJSONString\<close> writes it.\<close>

definition quote_unit :: "jschar \<Rightarrow> jsstring" where
  "quote_unit c =
     (if c = 0x08 then [0x5C, 0x62]
      else if c = 0x09 then [0x5C, 0x74]
      else if c = 0x0A then [0x5C, 0x6E]
      else if c = 0x0C then [0x5C, 0x66]
      else if c = 0x0D then [0x5C, 0x72]
      else if c = 0x22 then [0x5C, 0x22]
      else if c = 0x5C then [0x5C, 0x5C]
      else if c < 0x20 \<or> is_surrogate c then UnicodeEscape c
      else [c])"

text \<open>
  \<^verbatim>\<open>QuoteJSONString\<close> walks the code points of the string: a high surrogate followed by
  a low one is a single code point and is copied; a lone surrogate is escaped.
\<close>

fun quote_body :: "jsstring \<Rightarrow> jsstring" where
  "quote_body [] = []"
| "quote_body [c] = quote_unit c"
| "quote_body (c # d # cs) =
     (if is_high_surrogate c \<and> is_low_surrogate d then c # d # quote_body cs
      else quote_unit c @ quote_body (d # cs))"

definition QuoteJSONString :: "jsstring \<Rightarrow> jsstring" where
  "QuoteJSONString s = 0x22 # quote_body s @ [0x22]"

text \<open>
  \<^verbatim>\<open>JSON.stringify({ type: 'user_command', text: t, ts: Date.now() })\<close>: the three
  properties in insertion order, no white space.
\<close>

definition stringify_user_command :: "jsstring \<Rightarrow> nat \<Rightarrow> jsstring" where
  "stringify_user_command t now =
     js ''{\"type\":'' @ QuoteJSONString (js ''user_command'')
     @ js '',\"text\":'' @ QuoteJSONString t
     @ js '',\"ts\":'' @ decimal now @ js ''}''"

text \<open>
  \<^verbatim>\<open>TextEncoder.encode\<close>: the string is read as code points (a lone surrogate becomes
  U+FFFD) and each code point is written in UTF-8.
\<close>

fun code_points :: "jsstring \<Rightarrow> nat list" where
  "code_points [] = []"
| "code_points [c] = [if is_surrogate c then 0xFFFD else unat c]"
| "code_points (c # d # cs) =
     (if is_high_surrogate c \<and> is_low_surrogate d
      then (0x10000 + (unat c - 0xD800) * 0x400 + (unat d - 0xDC00)) # code_points cs
      else (if is_surrogate c then 0xFFFD else unat c) # code_points (d # cs))"

definition utf8_bytes :: "nat \<Rightarrow> nat list" where
  "utf8_bytes cp =
     (if cp < 0x80 then [cp]
      else if cp < 0x800 then [0xC0 + cp div 64, 0x80 + cp mod 64]
      else if cp < 0x10000 then [0xE0 + cp div 4096, 0x80 + cp div 64 mod 64, 0x80 + cp mod 64]
      else [0xF0 + cp div 262144, 0x80 + cp div 4096 mod 64, 0x80 + cp div 64 mod 64,
            0x80 + cp mod 64])"

definition TextEncoder_encode :: "jsstring \<Rightarrow> byte list" where
  "TextEncoder_encode s = map of_nat (concat (map utf8_bytes (code_points s)))"

definition encode_user_command :: "jsstring \<Rightarrow> nat \<Rightarrow> byte list" where
  "encode_user_command t now = TextEncoder_encode (stringify_user_command t now)"

section \<open>Decoding a payload: \<^verbatim>\<open>TextDecoder\<close>\<close>

text \<open>
  \<^verbatim>\<open>new TextDecoder().decode(payload)\<close> is the UTF-8 decoder of the Encoding Standard in
  its replacement mode: it never fails, every ill-formed sequence becomes U+FFFD. The
  state and the handler are the decoder's; \<^verbatim>\<open>byte & 0x1F\<close> is written \<open>b mod 32\<close> and
  \<^verbatim>\<open>(cp << 6) | (byte & 0x3F)\<close> is written \<open>cp * 64 + b mod 64\<close>. On a byte outside
  the expected range the handler resets the state, puts the byte back and reports an
  error.
\<close>

record utf8_state =
  code_point :: nat
  bytes_seen :: nat
  bytes_needed :: nat
  lower_boundary :: nat
  upper_boundary :: nat

definition utf8_initial :: utf8_state where
  "utf8_initial =
     \<lparr>code_point = 0, bytes_seen = 0, bytes_needed = 0, lower_boundary = 0x80,
      upper_boundary = 0xBF\<rparr>"

datatype handler_result =
    Continue utf8_state
  | CodePoint nat utf8_state
  | DecodeError utf8_state bool

definition utf8_handler :: "utf8_state \<Rightarrow> nat \<Rightarrow> handler_result" where
  "utf8_handler st b =
     (if bytes_needed st = 0 then
        (if b \<le> 0x7F then CodePoint b st
         else if 0xC2 \<le> b \<and> b \<le> 0xDF
         then Continue (st\<lparr>bytes_needed := 1, code_point := b mod 32\<rparr>)
         else if 0xE0 \<le> b \<and> b \<le> 0xEF
         then Continue
                (st\<lparr>lower_boundary := (if b = 0xE0 then 0xA0 else lower_boundary st),
                    upper_boundary := (if b = 0xED then 0x9F else upper_boundary st),
                    bytes_needed := 2, code_point := b mod 16\<rparr>)
         else if 0xF0 \<le> b \<and> b \<le> 0xF4
         then Continue
                (st\<lparr>lower_boundary := (if b = 0xF0 then 0x90 else lower_boundary st),
                    upper_boundary := (if b = 0xF4 then 0x8F else upper_boundary st),
                    bytes_needed := 3, code_point := b mod 8\<rparr>)
         else DecodeError st False)
      else if \<not> (lower_boundary st \<le> b \<and> b \<le> upper_boundary st)
      then DecodeError utf8_initial True
      else
        (let st' = st\<lparr>lower_boundary := 0x80, upper_boundary := 0xBF,
                       code_point := code_point st * 64 + b mod 64,
                       bytes_seen := bytes_seen st + 1\<rparr>
         in if bytes_seen st' \<noteq> bytes_needed st' then Continue st'
            else CodePoint (code_point st') utf8_initial))"

text \<open>
  The decoder runs the handler over the bytes; an error is written as U+FFFD. At the
  end of the input an unfinished sequence is an error.
\<close>

function utf8_decode :: "utf8_state \<Rightarrow> nat list \<Rightarrow> nat list" where
  "utf8_decode st [] = (if bytes_needed st \<noteq> 0 then [0xFFFD] else [])"
| "utf8_decode st (b # bs) =
     (case utf8_handler st b of
        Continue st' \<Rightarrow> utf8_decode st' bs
      | CodePoint cp st' \<Rightarrow> cp # utf8_decode st' bs
      | DecodeError st' restored \<Rightarrow>
          0xFFFD # (if restored then utf8_decode st' (b # bs) else utf8_decode st' bs))"
  by pat_completeness auto
termination
  by (relation "measures [\<lambda>(st, bs). length bs, \<lambda>(st, bs). bytes_needed st]")
    (auto simp: utf8_handler_def utf8_initial_def Let_def split: if_splits)

declare utf8_decode.simps [simp del]

text \<open>A code point as UTF-16 code units.\<close>

definition utf16_units :: "nat \<Rightarrow> jsstring" where
  "utf16_units cp =
     (if cp < 0x10000 then [of_nat cp]
      else [of_nat (0xD800 + (cp - 0x10000) div 0x400), of_nat (0xDC00 + (cp - 0x10000) mod 0x400)])"

text \<open>A byte order mark at the start of the output is dropped.\<close>

definition strip_bom :: "nat list \<Rightarrow> nat list" where
  "strip_bom cps = (case cps of [] \<Rightarrow> [] | cp # rest \<Rightarrow> if cp = 0xFEFF then rest else cps)"

definition TextDecoder_decode :: "byte list \<Rightarrow> jsstring" where
  "TextDecoder_decode payload =
     concat (map utf16_units (strip_bom (utf8_decode utf8_initial (map unat payload))))"

section \<open>\<^verbatim>\<open>JSON.parse\<close>\<close>

text \<open>
  The JSON grammar of ECMA-404, as \<^verbatim>\<open>JSON.parse\<close> reads it: a lexer that cuts the text
  into tokens, and a pushdown automaton over the tokens. \<open>None\<close> is the SyntaxError.
\<close>

datatype token =
    TLBrace | TRBrace | TLBrack | TRBrack | TColon | TComma
  | TString jsstring | TNumber jnum | TTrue | TFalse | TNull

definition is_json_ws :: "jschar \<Rightarrow> bool" where
  "is_json_ws c = (c = 0x20 \<or> c = 0x09 \<or> c = 0x0A \<or> c = 0x0D)"

definition hex_value :: "jschar \<Rightarrow> nat option" where
  "hex_value c =
     (if 0x30 \<le> c \<and> c \<le> 0x39 then Some (unat c - 0x30)
      else if 0x61 \<le> c \<and> c \<le> 0x66 then Some (unat c - 0x61 + 10)
      else if 0x41 \<le> c \<and> c \<le> 0x46 then Some (unat c - 0x41 + 10)
      else None)"

definition hex4 :: "jschar \<Rightarrow> jschar \<Rightarrow> jschar \<Rightarrow> jschar \<Rightarrow> jschar option" where
  "hex4 a b c d =
     (case (hex_value a, hex_value b, hex_value c, hex_value d) of
        (Some x, Some y, Some z, Some u) \<Rightarrow> Some (of_nat (((x * 16 + y) * 16 + z) * 16 + u))
      | _ \<Rightarrow> None)"

definition simple_escape :: "jschar \<Rightarrow> jschar option" where
  "simple_escape e =
     (if e = 0x22 then Some 0x22
      else if e = 0x5C then Some 0x5C
      else if e = 0x2F then Some 0x2F
      else if e = 0x62 then Some 0x08
      else if e = 0x66 then Some 0x0C
      else if e = 0x6E then Some 0x0A
      else if e = 0x72 then Some 0x0D
      else if e = 0x74 then Some 0x09
      else None)"

definition cons_char :: "jschar \<Rightarrow> (jsstring \<times> jsstring) option \<Rightarrow> (jsstring \<times> jsstring) option" where
  "cons_char c r = (case r of None \<Rightarrow> None | Some (s, rest) \<Rightarrow> Some (c # s, rest))"

fun lex_string :: "jsstring \<Rightarrow> (jsstring \<times> jsstring) option" where
  "lex_string [] = None"
| "lex_string (c # cs) =
     (if c = 0x22 then Some ([], cs)
      else if c = 0x5C then
        (case cs of
           [] \<Rightarrow> None
         | e # cs1 \<Rightarrow>
             if e = 0x75 then
               (case cs1 of
                  h1 # h2 # h3 # h4 # cs2 \<Rightarrow>
                    (case hex4 h1 h2 h3 h4 of
                       None \<Rightarrow> None
                     | Some u \<Rightarrow> cons_char u (lex_string cs2))
                | _ \<Rightarrow> None)
             else
               (case simple_escape e of
                  None \<Rightarrow> None
                | Some x \<Rightarrow> cons_char x (lex_string cs1)))
      else if c < 0x20 then None
      else cons_char c (lex_string cs))"


text \<open>
  A number is \<open>-? int frac? exp?\<close>. Its value is the digits of \<open>int\<close> and \<open>frac\<close>
  read as one decimal numeral, scaled by ten to the exponent less the length of \<open>frac\<close>.
\<close>

definition lex_int :: "jsstring \<Rightarrow> (jsstring \<times> jsstring) option" where
  "lex_int s =
     (case s of
        [] \<Rightarrow> None
      | d # r \<Rightarrow>
          if d = 0x30 then Some ([d], r)
          else if is_digit d then Some (d # takeWhile is_digit r, dropWhile is_digit r)
          else None)"

definition lex_frac :: "jsstring \<Rightarrow> (jsstring \<times> jsstring) option" where
  "lex_frac s =
     (case s of
        [] \<Rightarrow> Some ([], s)
      | p # r \<Rightarrow>
          if p = 0x2E then
            (if takeWhile is_digit r = [] then None
             else Some (takeWhile is_digit r, dropWhile is_digit r))
          else Some ([], s))"

definition lex_exp :: "jsstring \<Rightarrow> (int \<times> jsstring) option" where
  "lex_exp s =
     (case s of
        [] \<Rightarrow> Some (0, s)
      | e # r \<Rightarrow>
          if e = 0x65 \<or> e = 0x45 then
            (let neg = (r \<noteq> [] \<and> hd r = 0x2D);
                 r' = (if r \<noteq> [] \<and> (hd r = 0x2D \<or> hd r = 0x2B) then tl r else r)
             in if takeWhile is_digit r' = [] then None
                else Some ((if neg then - int (digits_value (takeWhile is_digit r'))
                            else int (digits_value (takeWhile is_digit r'))),
                           dropWhile is_digit r'))
          else Some (0, s))"

definition lex_number :: "jsstring \<Rightarrow> (jnum \<times> jsstring) option" where
  "lex_number s =
     (let neg = (s \<noteq> [] \<and> hd s = 0x2D);
          s1 = (if neg then tl s else s)
      in case lex_int s1 of
           None \<Rightarrow> None
         | Some (ds, s2) \<Rightarrow>
             (case lex_frac s2 of
                None \<Rightarrow> None
              | Some (fs, s3) \<Rightarrow>
                  (case lex_exp s3 of
                     None \<Rightarrow> None
                   | Some (e, s4) \<Rightarrow>
                       Some (JNum neg (digits_value (ds @ fs)) (e - int (length fs)), s4))))"

definition cons_token :: "token \<Rightarrow> token list option \<Rightarrow> token list option" where
  "cons_token t r = (case r of None \<Rightarrow> None | Some toks \<Rightarrow> Some (t # toks))"

lemma lex_string_length: "lex_string cs = Some (s, rest) \<Longrightarrow> length rest < Suc (length cs)"
proof (induction cs arbitrary: s rest rule: lex_string.induct)
  case 1
  then show ?case by simp
next
  case (2 c cs)
  then show ?case
    by (auto simp: cons_char_def less_Suc_eq_le split: if_splits list.splits option.splits
        dest!: meta_spec meta_mp)
qed

lemma lex_int_length: "lex_int s = Some (ds, r) \<Longrightarrow> length r < length s"
  by (auto simp: lex_int_def less_Suc_eq_le length_dropWhile_le split: list.splits if_splits)

lemma lex_frac_length: "lex_frac s = Some (fs, r) \<Longrightarrow> length r \<le> length s"
  by (auto simp: lex_frac_def le_SucI length_dropWhile_le split: list.splits if_splits)

lemma lex_exp_length: "lex_exp s = Some (e, r) \<Longrightarrow> length r \<le> length s"
proof -
  have a: "length (dropWhile is_digit (tl x)) \<le> Suc (length x)" for x :: jsstring
    using length_dropWhile_le[of is_digit "tl x"] by simp
  have b: "length (dropWhile is_digit x) \<le> Suc (length x)" for x :: jsstring
    using length_dropWhile_le[of is_digit x] by simp
  assume "lex_exp s = Some (e, r)"
  then show ?thesis
    by (auto simp: lex_exp_def Let_def a b split: list.splits if_splits)
qed

lemma lex_number_length: "lex_number (c # cs) = Some (n, r) \<Longrightarrow> length r < Suc (length cs)"
proof -
  assume a: "lex_number (c # cs) = Some (n, r)"
  define s1 where "s1 = (if c = 0x2D then cs else c # cs)"
  from a obtain ds s2 fs s3 e where
    i: "lex_int s1 = Some (ds, s2)" and f: "lex_frac s2 = Some (fs, s3)"
    and x: "lex_exp s3 = Some (e, r)"
    by (auto simp: lex_number_def Let_def s1_def split: option.splits if_splits)
  have "length s1 \<le> Suc (length cs)"
    by (simp add: s1_def)
  with lex_int_length[OF i] lex_frac_length[OF f] lex_exp_length[OF x]
  show ?thesis by simp
qed

function lex :: "jsstring \<Rightarrow> token list option" where
  "lex [] = Some []"
| "lex (c # cs) =
     (if is_json_ws c then lex cs
      else if c = 0x7B then cons_token TLBrace (lex cs)
      else if c = 0x7D then cons_token TRBrace (lex cs)
      else if c = 0x5B then cons_token TLBrack (lex cs)
      else if c = 0x5D then cons_token TRBrack (lex cs)
      else if c = 0x3A then cons_token TColon (lex cs)
      else if c = 0x2C then cons_token TComma (lex cs)
      else if c = 0x22 then
        (case lex_string cs of
           None \<Rightarrow> None
         | Some (s, rest) \<Rightarrow> cons_token (TString s) (lex rest))
      else if c = 0x2D \<or> is_digit c then
        (case lex_number (c # cs) of
           None \<Rightarrow> None
         | Some (n, rest) \<Rightarrow> cons_token (TNumber n) (lex rest))
      else if starts_with (c # cs) (js ''true'') then cons_token TTrue (lex (drop 3 cs))
      else if starts_with (c # cs) (js ''false'') then cons_token TFalse (lex (drop 4 cs))
      else if starts_with (c # cs) (js ''null'') then cons_token TNull (lex (drop 3 cs))
      else None)"
  by pat_completeness auto
termination
  by (relation "measure length") (auto simp: lex_string_length lex_number_length)

declare lex_string.simps [simp del]
declare lex.simps [simp del]

text \<open>
  The parser keeps a stack of the arrays and objects that are open. An array frame holds
  the elements read so far; an object frame holds the members read so far and the key
  whose value is being read.
\<close>

datatype frame = InArray "json list" | InObject "(jsstring \<times> json) list" jsstring

datatype pstate =
    PValue
  | PArrayStart
  | PObjectStart
  | PKey "(jsstring \<times> json) list"
  | PColon "(jsstring \<times> json) list" jsstring
  | PAfter json

definition begin_value :: "token \<Rightarrow> frame list \<Rightarrow> (pstate \<times> frame list) option" where
  "begin_value t st =
     (case t of
        TLBrace \<Rightarrow> Some (PObjectStart, st)
      | TLBrack \<Rightarrow> Some (PArrayStart, st)
      | TString s \<Rightarrow> Some (PAfter (JString s), st)
      | TNumber n \<Rightarrow> Some (PAfter (JNumber n), st)
      | TTrue \<Rightarrow> Some (PAfter (JBool True), st)
      | TFalse \<Rightarrow> Some (PAfter (JBool False), st)
      | TNull \<Rightarrow> Some (PAfter JNull, st)
      | _ \<Rightarrow> None)"

fun pstep :: "pstate \<Rightarrow> frame list \<Rightarrow> token \<Rightarrow> (pstate \<times> frame list) option" where
  "pstep PValue st t = begin_value t st"
| "pstep PArrayStart st t =
     (if t = TRBrack then Some (PAfter (JArray []), st) else begin_value t (InArray [] # st))"
| "pstep PObjectStart st t =
     (case t of
        TRBrace \<Rightarrow> Some (PAfter (JObject []), st)
      | TString k \<Rightarrow> Some (PColon [] k, st)
      | _ \<Rightarrow> None)"
| "pstep (PKey ms) st t = (case t of TString k \<Rightarrow> Some (PColon ms k, st) | _ \<Rightarrow> None)"
| "pstep (PColon ms k) st t = (if t = TColon then Some (PValue, InObject ms k # st) else None)"
| "pstep (PAfter v) [] t = None"
| "pstep (PAfter v) (InArray es # st) t =
     (case t of
        TComma \<Rightarrow> Some (PValue, InArray (es @ [v]) # st)
      | TRBrack \<Rightarrow> Some (PAfter (JArray (es @ [v])), st)
      | _ \<Rightarrow> None)"
| "pstep (PAfter v) (InObject ms k # st) t =
     (case t of
        TComma \<Rightarrow> Some (PKey (ms @ [(k, v)]), st)
      | TRBrace \<Rightarrow> Some (PAfter (JObject (ms @ [(k, v)])), st)
      | _ \<Rightarrow> None)"

fun parse_tokens :: "pstate \<Rightarrow> frame list \<Rightarrow> token list \<Rightarrow> json option" where
  "parse_tokens p st [] = (case (p, st) of (PAfter v, []) \<Rightarrow> Some v | _ \<Rightarrow> None)"
| "parse_tokens p st (t # toks) =
     (case pstep p st t of
        None \<Rightarrow> None
      | Some (p', st') \<Rightarrow> parse_tokens p' st' toks)"

definition JSON_parse :: "jsstring \<Rightarrow> json option" where
  "JSON_parse text = (case lex text of None \<Rightarrow> None | Some toks \<Rightarrow> parse_tokens PValue [] toks)"

section \<open>The state of the \<^verbatim>\<open>App\<close> component\<close>

datatype sender = User | Assistant

record chat_entry =
  msg_id :: nat
  msg_sender :: sender
  msg_text :: "json option"
  msg_images :: json
  msg_timestamp :: nat

record log_entry =
  ts :: nat
  msg :: jsstring

record participant =
  identity :: jsstring
  isAgent :: bool

record tool =
  key :: jsstring
  label :: jsstring
  desc :: jsstring
  prompt :: jsstring

record email_form =
  to :: jsstring
  subject :: jsstring
  body :: jsstring

text \<open>
  Calls the component makes on the platform and on the room client, in order, with the
  arguments that matter. \<open>PublishData\<close> holds both arguments of
  \<^verbatim>\<open>publishData\<close> as they are passed.
\<close>

datatype effect =
    FetchToken jsstring jsstring
  | NewRoom nat
  | RoomConnect jsstring "json option"
  | SetMicrophoneEnabled bool
  | AudioContextResume
  | RoomDisconnect
  | PublishData "byte list" json
  | AttachAudio
  | SetTimeout nat

text \<open>
  The \<^verbatim>\<open>useState\<close> cells and the \<^verbatim>\<open>levelRafRef\<close> ref of the component that the
  session logic touches, together with the browser's list of pending animation frames,
  the trace of effects, and the rooms whose connection the room client holds open.
  \<open>None\<close> is \<^verbatim>\<open>null\<close>.
\<close>

record app =
  room :: "nat option"
  connected :: bool
  connecting :: bool
  muted :: bool
  speaking :: bool
  participants :: "participant list"
  agentSpeaking :: bool
  error :: "jsstring option"
  quality :: jsstring
  logs :: "log_entry list"
  autoConnect :: bool
  micLevel :: "int option"
  showEmailPopup :: bool
  showEmailSentPopup :: bool
  emailForm :: email_form
  emailSending :: bool
  messages :: "chat_entry list"
  inputMessage :: jsstring
  levelRafRef :: "nat option"
  rafPending :: "nat list"
  rafNext :: nat
  effects :: "effect list"
  liveRooms :: "nat list"

definition initial_app :: app where
  "initial_app =
     \<lparr>room = None, connected = False, connecting = False, muted = False, speaking = False,
      participants = [], agentSpeaking = False, error = None, quality = js ''Unknown'',
      logs = [], autoConnect = False, micLevel = Some 0, showEmailPopup = False,
      showEmailSentPopup = False,
      emailForm = \<lparr>to = [], subject = [], body = []\<rparr>, emailSending = False,
      messages = [], inputMessage = [], levelRafRef = None, rafPending = [], rafNext = 1,
      effects = [], liveRooms = []\<rparr>"

definition tools :: "tool list" where
  "tools =
     [\<lparr>key = js ''get_weather'', label = js ''Weather'', desc = js ''Get weather for a city'',
       prompt = js ''What is the weather in London?''\<rparr>,
      \<lparr>key = js ''search_web'', label = js ''Web Search'', desc = js ''Search the internet'',
       prompt = js ''Search the web for latest AI news''\<rparr>,
      \<lparr>key = js ''send_email'', label = js ''Send Email'', desc = js ''Compose and send an email'',
       prompt = js ''Send an email to hr saying I will be late by 15 minutes''\<rparr>,
      \<lparr>key = js ''open_application'', label = js ''Open App'',
       desc = js ''Open common applications'', prompt = js ''Open calculator''\<rparr>,
      \<lparr>key = js ''close_application'', label = js ''Close App'',
       desc = js ''Close an application'', prompt = js ''Close calculator''\<rparr>,
      \<lparr>key = js ''open_website'', label = js ''Open Website'',
       desc = js ''Open popular websites'', prompt = js ''Open YouTube''\<rparr>,
      \<lparr>key = js ''search_google'', label = js ''Google Search'', desc = js ''Search in browser'',
       prompt = js ''Search Google for LiveKit agents''\<rparr>,
      \<lparr>key = js ''get_system_status'', label = js ''System Status'',
       desc = js ''CPU, memory, disk, battery'', prompt = js ''What is my system status?''\<rparr>,
      \<lparr>key = js ''get_time_and_date'', label = js ''Time & Date'',
       desc = js ''Current time and date'', prompt = js ''What is the time and date?''\<rparr>,
      \<lparr>key = js ''take_screenshot'', label = js ''Screenshot'', desc = js ''Capture your screen'',
       prompt = js ''Take a screenshot''\<rparr>]"

text \<open>\<^verbatim>\<open>setLogs((l) => [{ ts, msg }, ...l].slice(0, 50))\<close>\<close>

definition append_log :: "nat \<Rightarrow> jsstring \<Rightarrow> log_entry list \<Rightarrow> log_entry list" where
  "append_log now m l = take 50 (\<lparr>ts = now, msg = m\<rparr> # l)"

definition setLogs :: "nat \<Rightarrow> jsstring \<Rightarrow> app \<Rightarrow> app" where
  "setLogs now m w = w\<lparr>logs := append_log now m (logs w)\<rparr>"

definition do_effect :: "effect \<Rightarrow> app \<Rightarrow> app" where
  "do_effect e w = w\<lparr>effects := effects w @ [e]\<rparr>"

section \<open>The audio level meter\<close>


definition sample_v :: "byte \<Rightarrow> real" where
  "sample_v d = (real (unat d) - 128) / 128"

fun sum_loop :: "real \<Rightarrow> byte list \<Rightarrow> real" where
  "sum_loop acc [] = acc"
| "sum_loop acc (d # ds) = sum_loop (acc + sample_v d * sample_v d) ds"

definition rms :: "byte list \<Rightarrow> real" where
  "rms dataArray = sqrt (sum_loop 0 dataArray / real (length dataArray))"

text \<open>\<^verbatim>\<open>Math.round\<close> rounds to the nearest integer, halves upwards.\<close>

definition Math_round :: "real \<Rightarrow> int" where
  "Math_round x = \<lfloor>x + 1 / 2\<rfloor>"

definition level_of :: "byte list \<Rightarrow> int option" where
  "level_of dataArray =
     (if dataArray = [] then None
      else Some (min 100 (max 0 (Math_round (rms dataArray * 220)))))"

text \<open>\<^verbatim>\<open>if (levelRafRef.current) cancelAnimationFrame(levelRafRef.current)\<close>\<close>

definition cancel_level_raf :: "app \<Rightarrow> app" where
  "cancel_level_raf w =
     (case levelRafRef w of
        None \<Rightarrow> w
      | Some h \<Rightarrow> if h \<noteq> 0 then w\<lparr>rafPending := removeAll h (rafPending w)\<rparr> else w)"

text \<open>\<^verbatim>\<open>levelRafRef.current = requestAnimationFrame(tick)\<close>: a fresh non-zero handle.\<close>

definition request_level_raf :: "app \<Rightarrow> app" where
  "request_level_raf w =
     w\<lparr>levelRafRef := Some (rafNext w), rafPending := rafPending w @ [rafNext w],
       rafNext := Suc (rafNext w)\<rparr>"

definition tick :: "byte list \<Rightarrow> app \<Rightarrow> app" where
  "tick dataArray w = request_level_raf (w\<lparr>micLevel := level_of dataArray\<rparr>)"

text \<open>The browser runs a pending animation frame: it leaves the list, then \<^verbatim>\<open>tick\<close> runs.\<close>

definition on_animation_frame :: "nat \<Rightarrow> byte list \<Rightarrow> app \<Rightarrow> app" where
  "on_animation_frame h dataArray w =
     (if h \<in> set (rafPending w) then tick dataArray (w\<lparr>rafPending := removeAll h (rafPending w)\<rparr>)
      else w)"

text \<open>
  \<^verbatim>\<open>setupMicLevelAnalyser\<close>: \<open>stream\<close> tells whether a media stream was obtained and the
  analysis nodes were created; every failure on the way is swallowed.
\<close>

definition setupWithStream :: "app \<Rightarrow> app" where
  "setupWithStream w = request_level_raf (cancel_level_raf w)"

definition setupMicLevelAnalyser :: "bool \<Rightarrow> app \<Rightarrow> app" where
  "setupMicLevelAnalyser stream w = (if stream then setupWithStream w else w)"

section \<open>Room event listeners (\<^verbatim>\<open>setupRoomListeners\<close>)\<close>

datatype track_kind = Audio | Video

definition kind_name :: "track_kind \<Rightarrow> jsstring" where
  "kind_name k = (case k of Audio \<Rightarrow> js ''audio'' | Video \<Rightarrow> js ''video'')"

definition is_agent_identity :: "jsstring \<Rightarrow> bool" where
  "is_agent_identity i = (includes_str i (js ''agent'') \<or> includes_str i (js ''nevira''))"

definition on_TrackSubscribed :: "nat \<Rightarrow> track_kind \<Rightarrow> jsstring \<Rightarrow> app \<Rightarrow> app" where
  "on_TrackSubscribed now k ident w =
     (let w1 = setLogs now (js ''Subscribed '' @ kind_name k @ js '' from '' @ ident) w
      in if k = Audio then
           (let w2 = do_effect AttachAudio w1
            in if is_agent_identity ident
               then do_effect (SetTimeout 3000) (w2\<lparr>agentSpeaking := True\<rparr>)
               else w2)
         else w1)"

text \<open>The timer set above fires.\<close>

definition on_agent_timeout :: "app \<Rightarrow> app" where
  "on_agent_timeout w = w\<lparr>agentSpeaking := False\<rparr>"

definition on_LocalTrackPublished :: "bool \<Rightarrow> bool \<Rightarrow> app \<Rightarrow> app" where
  "on_LocalTrackPublished isLocal stream w =
     (if isLocal then setupMicLevelAnalyser stream w else w)"

text \<open>\<open>remotes\<close> are the identities in \<^verbatim>\<open>room.remoteParticipants\<close> at the time of the call.\<close>

definition updateParticipants :: "jsstring list \<Rightarrow> app \<Rightarrow> app" where
  "updateParticipants remotes w =
     w\<lparr>participants := map (\<lambda>i. \<lparr>identity = i, isAgent = is_agent_identity i\<rparr>) remotes\<rparr>"

definition on_ParticipantConnected :: "nat \<Rightarrow> jsstring \<Rightarrow> jsstring list \<Rightarrow> app \<Rightarrow> app" where
  "on_ParticipantConnected now ident remotes w =
     updateParticipants remotes (setLogs now (js ''+ '' @ ident) w)"

definition on_ParticipantDisconnected :: "nat \<Rightarrow> jsstring \<Rightarrow> jsstring list \<Rightarrow> app \<Rightarrow> app" where
  "on_ParticipantDisconnected now ident remotes w =
     updateParticipants remotes (setLogs now (js ''- '' @ ident) w)"

text \<open>\<open>speakers\<close> holds the \<^verbatim>\<open>isLocal\<close> flag of each reported speaker.\<close>

definition on_ActiveSpeakersChanged :: "bool list \<Rightarrow> app \<Rightarrow> app" where
  "on_ActiveSpeakersChanged speakers w = w\<lparr>speaking := list_ex (\<lambda>isLocal. isLocal) speakers\<rparr>"

definition on_Disconnected :: "nat \<Rightarrow> app \<Rightarrow> app" where
  "on_Disconnected now w =
     cancel_level_raf ((setLogs now (js ''Disconnected from room'') w)\<lparr>connected := False, room := None\<rparr>)"

definition on_ConnectionQualityChanged :: "jsstring \<Rightarrow> bool \<Rightarrow> app \<Rightarrow> app" where
  "on_ConnectionQualityChanged q isLocal w = (if isLocal then w\<lparr>quality := q\<rparr> else w)"

text \<open>
  The \<^verbatim>\<open>DataReceived\<close> listener. Its \<^verbatim>\<open>try\<close> block throws where \<^verbatim>\<open>JSON.parse\<close> throws,
  and where \<^verbatim>\<open>data.type\<close> is read off \<^verbatim>\<open>null\<close>; both happen before any state is set.
\<close>

datatype js_error = SyntaxError | TypeError

text \<open>\<^verbatim>\<open>a || b\<close>\<close>

definition js_or :: "json option \<Rightarrow> json option \<Rightarrow> json option" where
  "js_or a b = (if truthy a then a else b)"

definition DataReceived_try :: "nat \<Rightarrow> nat \<Rightarrow> byte list \<Rightarrow> app \<Rightarrow> js_error + app" where
  "DataReceived_try now now' payload w =
     (case JSON_parse (TextDecoder_decode payload) of
        None \<Rightarrow> Inl SyntaxError
      | Some data \<Rightarrow>
          (case get_prop data (js ''type'') of
             None \<Rightarrow> Inl TypeError
           | Some type \<Rightarrow>
               if type = Some (JString (js ''email_popup_trigger''))
               then Inr (setLogs now (js ''Email popup opened via voice command'')
                           (w\<lparr>showEmailPopup := True\<rparr>))
               else if type = Some (JString (js ''assistant_message''))
               then Inr (w\<lparr>messages := messages w @
                          [\<lparr>msg_id = now, msg_sender = Assistant,
                            msg_text = js_or (own_prop data (js ''message'')) (own_prop data (js ''text'')),
                            msg_images = the (js_or (own_prop data (js ''images'')) (Some (JArray []))),
                            msg_timestamp = now'\<rparr>]\<rparr>)
               else Inr w))"

text \<open>The whole listener: the \<^verbatim>\<open>catch\<close> block decodes the payload again as text.\<close>

definition DataReceived_handler :: "nat \<Rightarrow> nat \<Rightarrow> byte list \<Rightarrow> app \<Rightarrow> js_error + app" where
  "DataReceived_handler now now' payload w =
     (case DataReceived_try now now' payload w of
        Inr w' \<Rightarrow> Inr w'
      | Inl e \<Rightarrow>
          (let text = TextDecoder_decode payload
           in if text \<noteq> [] \<and> trim text \<noteq> []
              then Inr (w\<lparr>messages := messages w @
                         [\<lparr>msg_id = now, msg_sender = Assistant, msg_text = Some (JString text),
                           msg_images = JArray [], msg_timestamp = now'\<rparr>]\<rparr>)
              else Inr w))"

text \<open>The state after the listener has run; an error that escaped would leave it as it was.\<close>

definition on_DataReceived :: "nat \<Rightarrow> nat \<Rightarrow> byte list \<Rightarrow> app \<Rightarrow> app" where
  "on_DataReceived now now' payload w =
     (case DataReceived_handler now now' payload w of Inr w' \<Rightarrow> w' | Inl e \<Rightarrow> w)"

section \<open>Connecting and disconnecting\<close>

text \<open>
  The result of awaiting a promise: it resolves with a value or rejects with an error
  whose \<^verbatim>\<open>message\<close> is given.
\<close>

datatype 'a outcome = Resolved 'a | Rejected jsstring

record http_response =
  status :: nat
  statusText :: jsstring
  json_body :: "json outcome"

definition response_ok :: "http_response \<Rightarrow> bool" where
  "response_ok r = (200 \<le> status r \<and> status r \<le> 299)"

definition TOKEN_SERVER :: jsstring where
  "TOKEN_SERVER = js ''http://localhost:3001/token''"

definition LIVEKIT_URL :: jsstring where
  "LIVEKIT_URL = js ''wss://deskto-ai-zog435cw.livekit.cloud''"

definition ROOM_NAME :: jsstring where
  "ROOM_NAME = js ''nevira-room''"

text \<open>
  \<^verbatim>\<open>getToken\<close>, given what \<^verbatim>\<open>fetch\<close> produced. The result is \<^verbatim>\<open>data.token\<close>, which is
  \<^verbatim>\<open>undefined\<close> when the body has no such property.
\<close>

definition getToken :: "http_response outcome \<Rightarrow> json option outcome" where
  "getToken fetched =
     (case fetched of
        Rejected m \<Rightarrow> Rejected m
      | Resolved response \<Rightarrow>
          if \<not> response_ok response
          then Rejected (js ''Token request failed: '' @ statusText response)
          else (case json_body response of
                  Rejected m \<Rightarrow> Rejected m
                | Resolved data \<Rightarrow>
                    (case get_prop data (js ''token'') of
                       None \<Rightarrow> Rejected (js ''Cannot read properties of null (reading 'token')'')
                     | Some token \<Rightarrow> Resolved token)))"

text \<open>What the platform and the room client answer during one \<^verbatim>\<open>connectToRoom\<close> call.\<close>

record connect_env =
  random_id :: nat
  fetched :: "http_response outcome"
  new_room :: nat
  room_connect :: "unit outcome"
  mic_enable :: "unit outcome"
  audio_suspended :: bool
  meter_stream :: bool

definition connect_failed :: "jsstring \<Rightarrow> app \<Rightarrow> app" where
  "connect_failed m w = w\<lparr>error := Some m, connecting := False\<rparr>"

text \<open>The synchronous start of \<^verbatim>\<open>connectToRoom\<close>, up to the token request being sent.\<close>

definition client_identity :: "connect_env \<Rightarrow> jsstring" where
  "client_identity env = js ''user_'' @ decimal (random_id env)"

definition connectToRoom_begin :: "connect_env \<Rightarrow> app \<Rightarrow> app" where
  "connectToRoom_begin env w =
     do_effect (FetchToken (client_identity env) ROOM_NAME)
       (w\<lparr>connecting := True, error := None\<rparr>)"

text \<open>
  The rest of \<^verbatim>\<open>connectToRoom\<close>, from the answer to the token request onwards, taken
  as one step: nothing else runs between its later \<^verbatim>\<open>await\<close>s. Once \<^verbatim>\<open>newRoom.connect\<close>
  has resolved the room client holds the connection open, whatever happens next.
\<close>

definition connectToRoom_resume :: "connect_env \<Rightarrow> app \<Rightarrow> app" where
  "connectToRoom_resume env w =
     (case getToken (fetched env) of
        Rejected m \<Rightarrow> connect_failed m w
      | Resolved token \<Rightarrow>
          (let w1 = do_effect (RoomConnect LIVEKIT_URL token) (do_effect (NewRoom (new_room env)) w)
           in case room_connect env of
                Rejected m \<Rightarrow> connect_failed m w1
              | Resolved _ \<Rightarrow>
                  (let w2 = do_effect (SetMicrophoneEnabled True)
                              (w1\<lparr>liveRooms := liveRooms w1 @ [new_room env]\<rparr>)
                   in case mic_enable env of
                        Rejected m \<Rightarrow> connect_failed m w2
                      | Resolved _ \<Rightarrow>
                          (let w3 = (if audio_suspended env then do_effect AudioContextResume w2 else w2);
                               w4 = setupMicLevelAnalyser (meter_stream env) w3
                           in w4\<lparr>room := Some (new_room env), connected := True,
                                 connecting := False\<rparr>))))"

definition connectToRoom :: "connect_env \<Rightarrow> app \<Rightarrow> app" where
  "connectToRoom env w = connectToRoom_resume env (connectToRoom_begin env w)"

text \<open>
  The two places that call \<^verbatim>\<open>connectToRoom\<close>: the Connect button, rendered only while
  \<^verbatim>\<open>!connected\<close> and \<^verbatim>\<open>disabled={connecting}\<close>, and the auto-connect effect. The call
  runs up to its first \<^verbatim>\<open>await\<close>; the rest runs when the token request is answered.
\<close>

definition click_connect :: "connect_env \<Rightarrow> app \<Rightarrow> app" where
  "click_connect env w =
     (if \<not> connected w \<and> \<not> connecting w then connectToRoom_begin env w else w)"

definition autoConnect_effect :: "connect_env \<Rightarrow> app \<Rightarrow> app" where
  "autoConnect_effect env w =
     (if autoConnect w \<and> \<not> connected w \<and> \<not> connecting w then connectToRoom_begin env w
      else w)"

definition disconnectFromRoom :: "unit outcome \<Rightarrow> app \<Rightarrow> app" where
  "disconnectFromRoom disconnected w =
     (case room w of
        None \<Rightarrow> w
      | Some r \<Rightarrow>
          (let w1 = do_effect RoomDisconnect w
           in case disconnected of
                Rejected m \<Rightarrow> w1
              | Resolved _ \<Rightarrow>
                  cancel_level_raf (w1\<lparr>room := None, connected := False, participants := []\<rparr>)))"

definition toggleMute :: "unit outcome \<Rightarrow> app \<Rightarrow> app" where
  "toggleMute enabled w =
     (case room w of
        None \<Rightarrow> w
      | Some r \<Rightarrow>
          (let newMuted = \<not> muted w;
               w1 = do_effect (SetMicrophoneEnabled (\<not> newMuted)) w
           in case enabled of Rejected m \<Rightarrow> w1 | Resolved _ \<Rightarrow> w1\<lparr>muted := newMuted\<rparr>))"

section \<open>Sending commands over the data channel\<close>

text \<open>
  \<^verbatim>\<open>room.localParticipant.publishData(data, true)\<close> is recorded as
  \<open>PublishData data (JBool True)\<close>. \<open>published\<close> is what awaiting the call gives. The
  \<open>now\<close> arguments are the values of the successive \<^verbatim>\<open>Date.now()\<close> calls.
\<close>

text \<open>
  What the room client does with the second argument. The file is written against
  version 2 of the client (\<^verbatim>\<open>room.remoteParticipants\<close>, \<^verbatim>\<open>getTrackPublications\<close>), whose
  \<^verbatim>\<open>publishData(data, options = {})\<close> sends on the reliable channel when
  \<^verbatim>\<open>options.reliable\<close> is truthy and on the lossy one otherwise. \<open>None\<close> is the
  TypeError of reading a property off \<^verbatim>\<open>null\<close>.
\<close>

datatype DataPacket_Kind = RELIABLE | LOSSY

definition publishData_kind :: "json \<Rightarrow> DataPacket_Kind option" where
  "publishData_kind options =
     (case get_prop options (js ''reliable'') of
        None \<Rightarrow> None
      | Some reliable \<Rightarrow> Some (if truthy reliable then RELIABLE else LOSSY))"


definition triggerTool :: "nat \<Rightarrow> nat \<Rightarrow> unit outcome \<Rightarrow> tool \<Rightarrow> app \<Rightarrow> app" where
  "triggerTool now now' published t w =
     (if \<not> connected w \<or> room w = None then w
      else if key t = js ''send_email'' then w\<lparr>showEmailPopup := True\<rparr>
      else
        (let w1 = do_effect (PublishData (encode_user_command (prompt t) now) (JBool True)) w
         in case published of
              Resolved _ \<Rightarrow> setLogs now' (js ''Triggered tool: '' @ label t) w1
            | Rejected m \<Rightarrow>
                w1\<lparr>error := Some (js ''Failed to send command to assistant. Please speak the request.'')\<rparr>))"

definition email_command :: "email_form \<Rightarrow> jsstring" where
  "email_command f =
     js ''Send an email to '' @ to f @ js '' with subject \"'' @ subject f
     @ js ''\" and message \"'' @ body f @ js ''\"''"

definition handleEmailSubmit :: "nat \<Rightarrow> nat \<Rightarrow> unit outcome \<Rightarrow> app \<Rightarrow> app" where
  "handleEmailSubmit now now' published w =
     (if to (emailForm w) = [] \<or> subject (emailForm w) = [] \<or> body (emailForm w) = []
      then w\<lparr>error := Some (js ''Please fill in all email fields'')\<rparr>
      else if \<not> connected w \<or> room w = None
      then w\<lparr>error := Some (js ''Not connected to assistant'')\<rparr>
      else
        (let w1 = do_effect (PublishData (encode_user_command (email_command (emailForm w)) now) (JBool True))
                    (w\<lparr>emailSending := True\<rparr>)
         in case published of
              Resolved _ \<Rightarrow>
                do_effect (SetTimeout 1000)
                  ((setLogs now' (js ''Sending email to '' @ to (emailForm w)) w1)
                     \<lparr>showEmailPopup := False, emailForm := \<lparr>to = [], subject = [], body = []\<rparr>\<rparr>)
            | Rejected m \<Rightarrow>
                w1\<lparr>error := Some (js ''Failed to send email command to assistant''),
                   emailSending := False\<rparr>))"

text \<open>The one-second timer of \<^verbatim>\<open>handleEmailSubmit\<close> fires.\<close>

definition on_email_sent_timeout :: "app \<Rightarrow> app" where
  "on_email_sent_timeout w = w\<lparr>showEmailSentPopup := True, emailSending := False\<rparr>"

definition handleEmailClose :: "app \<Rightarrow> app" where
  "handleEmailClose w = w\<lparr>showEmailPopup := False, emailForm := \<lparr>to = [], subject = [], body = []\<rparr>\<rparr>"

definition handleEmailSentClose :: "app \<Rightarrow> app" where
  "handleEmailSentClose w = w\<lparr>showEmailSentPopup := False\<rparr>"

definition sendMessage :: "nat \<Rightarrow> nat \<Rightarrow> nat \<Rightarrow> unit outcome \<Rightarrow> app \<Rightarrow> app" where
  "sendMessage now now' now'' published w =
     (if trim (inputMessage w) = [] \<or> \<not> connected w \<or> room w = None then w
      else
        (let userMessage =
               \<lparr>msg_id = now, msg_sender = User, msg_text = Some (JString (inputMessage w)),
                msg_images = JArray [], msg_timestamp = now'\<rparr>;
             w1 = w\<lparr>messages := messages w @ [userMessage], inputMessage := []\<rparr>;
             w2 = do_effect (PublishData (encode_user_command (inputMessage w) now'') (JBool True)) w1
         in case published of
              Resolved _ \<Rightarrow> w2
            | Rejected m \<Rightarrow>
                w2\<lparr>error := Some (js ''Failed to send message. Please speak the request.'')\<rparr>))"

section \<open>The token server\<close>

text \<open>
  \<^verbatim>\<open>parseInt(s, 10)\<close>: leading white space is skipped, a sign is read, then the longest
  run of decimal digits; \<open>None\<close> is \<^verbatim>\<open>NaN\<close>, the result when there is no digit.
\<close>

definition parseInt10 :: "jsstring \<Rightarrow> int option" where
  "parseInt10 s =
     (let s1 = dropWhile is_js_whitespace s;
          neg = (s1 \<noteq> [] \<and> hd s1 = 0x2D);
          s2 = (if s1 \<noteq> [] \<and> (hd s1 = 0x2D \<or> hd s1 = 0x2B) then tl s1 else s1);
          ds = takeWhile is_digit s2
      in if ds = [] then None
         else Some (if neg then - int (digits_value ds) else int (digits_value ds)))"

text \<open>
  What the handler of \<^verbatim>\<open>POST /token\<close> reads: the two body fields (any JSON value, or
  absent), the \<^verbatim>\<open>MAX_PARTICIPANTS\<close> environment variable,
  the participants the room holds at the room service, and the signed token. The body
  is taken to be an object, as the JSON body parser leaves it.
\<close>

record token_request =
  req_identity :: "json option"
  req_roomName :: "json option"

record token_env =
  MAX_PARTICIPANTS :: "jsstring option"
  room_participants :: nat
  toJwt :: "jsstring outcome"

record http_reply =
  reply_status :: nat
  reply_body :: json

definition maxParticipants :: "token_env \<Rightarrow> int option" where
  "maxParticipants env =
     parseInt10 (case MAX_PARTICIPANTS env of
                   None \<Rightarrow> js ''2''
                 | Some v \<Rightarrow> if v = [] then js ''2'' else v)"

text \<open>
  \<^verbatim>\<open>await roomService.getRoom(room)\<close>, giving the length of \<^verbatim>\<open>info.participants\<close> when
  there is such a field. \<^verbatim>\<open>roomService\<close> is a \<^verbatim>\<open>RoomServiceClient\<close> of
  \<^verbatim>\<open>livekit-server-sdk\<close>, which has \<^verbatim>\<open>listRooms\<close> and \<^verbatim>\<open>listParticipants\<close> but no
  \<^verbatim>\<open>getRoom\<close>: the call throws a TypeError before any request is made, whatever the
  room holds.
\<close>

definition roomService_getRoom :: "token_env \<Rightarrow> nat option outcome" where
  "roomService_getRoom env = Rejected (js ''roomService.getRoom is not a function'')"

text \<open>The length of \<^verbatim>\<open>participants\<close> after the \<^verbatim>\<open>try\<close> around \<^verbatim>\<open>getRoom\<close>.\<close>

definition participants_length :: "token_env \<Rightarrow> nat" where
  "participants_length env =
     (case roomService_getRoom env of
        Rejected m \<Rightarrow> 0
      | Resolved None \<Rightarrow> 0
      | Resolved (Some n) \<Rightarrow> n)"

text \<open>\<^verbatim>\<open>participants.length >= maxParticipants\<close>; a comparison with \<^verbatim>\<open>NaN\<close> is false.\<close>

definition room_is_full :: "token_env \<Rightarrow> bool" where
  "room_is_full env =
     (case maxParticipants env of
        None \<Rightarrow> False
      | Some m \<Rightarrow> m \<le> int (participants_length env))"

definition token_route :: "token_env \<Rightarrow> token_request \<Rightarrow> http_reply" where
  "token_route env req =
     (if \<not> truthy (req_identity req)
      then \<lparr>reply_status = 400,
            reply_body = JObject [(js ''error'', JString (js ''identity is required''))]\<rparr>
      else
        (let room = (if truthy (req_roomName req) then the (req_roomName req)
                     else JString (js ''nevira-room''))
         in if room_is_full env
            then \<lparr>reply_status = 403,
                  reply_body =
                    JObject [(js ''error'', JString (js ''Room is full. Please try again later.''))]\<rparr>
            else (case toJwt env of
                    Rejected m \<Rightarrow>
                      \<lparr>reply_status = 500,
                       reply_body = JObject [(js ''error'', JString (js ''Failed to generate token''))]\<rparr>
                  | Resolved token \<Rightarrow>
                      \<lparr>reply_status = 200,
                       reply_body = JObject [(js ''token'', JString token), (js ''roomName'', room)]\<rparr>)))"

text \<open>
  The request that \<^verbatim>\<open>getToken\<close> posts, as the server's body parser reads it:
  \<^verbatim>\<open>{ identity, roomName: ROOM_NAME }\<close>.
\<close>

definition client_request :: "connect_env \<Rightarrow> token_request" where
  "client_request cenv =
     \<lparr>req_identity = Some (JString (client_identity cenv)),
      req_roomName = Some (JString ROOM_NAME)\<rparr>"

text \<open>The reply as \<^verbatim>\<open>fetch\<close> hands it to the client, with the reason phrase of the transport.\<close>

definition as_response :: "jsstring \<Rightarrow> http_reply \<Rightarrow> http_response" where
  "as_response reason r =
     \<lparr>status = reply_status r, statusText = reason, json_body = Resolved (reply_body r)\<rparr>"

section \<open>The component as a transition system\<close>

text \<open>
  What the room client does on \<^verbatim>\<open>room.disconnect()\<close>: a room whose connection is open
  is closed and emits \<^verbatim>\<open>Disconnected\<close> once, which runs the listener registered on it;
  on any other room the call does nothing.
\<close>

definition emit_Disconnected :: "nat \<Rightarrow> nat \<Rightarrow> app \<Rightarrow> app" where
  "emit_Disconnected now r w =
     (if r \<in> set (liveRooms w)
      then on_Disconnected now (w\<lparr>liveRooms := removeAll r (liveRooms w)\<rparr>)
      else w)"

definition room_disconnect :: "nat \<Rightarrow> nat \<Rightarrow> app \<Rightarrow> app" where
  "room_disconnect now r w = emit_Disconnected now r (do_effect RoomDisconnect w)"

text \<open>
  The cleanup of the effect keyed on \<^verbatim>\<open>[room]\<close>. It is the closure of an earlier
  render, so \<open>old\<close> is the room of that render, while the ref is read when it runs.
\<close>

definition room_effect_cleanup :: "nat \<Rightarrow> nat option \<Rightarrow> app \<Rightarrow> app" where
  "room_effect_cleanup now old w =
     cancel_level_raf (case old of None \<Rightarrow> w | Some r \<Rightarrow> room_disconnect now r w)"

text \<open>
  The render after a handler has taken the state from \<open>w\<close> to \<open>w'\<close>: when \<^verbatim>\<open>room\<close> has
  changed, the cleanup of the previous render runs. Its \<^verbatim>\<open>room.disconnect()\<close> may run
  the \<^verbatim>\<open>Disconnected\<close> listener, which sets \<^verbatim>\<open>room\<close> to \<^verbatim>\<open>null\<close>; that is one more
  change and one more cleanup, after which \<^verbatim>\<open>room\<close> stays \<^verbatim>\<open>null\<close>. \<open>now\<close> is the clock
  read by the listeners that run on the way.
\<close>

definition rerender :: "nat \<Rightarrow> app \<Rightarrow> app \<Rightarrow> app" where
  "rerender now w w' =
     (if room w' = room w then w'
      else
        (let w1 = room_effect_cleanup now (room w) w'
         in if room w1 = room w' then w1 else room_effect_cleanup now (room w') w1))"

text \<open>
  The Disconnect button. \<^verbatim>\<open>disconnectFromRoom\<close> awaits \<^verbatim>\<open>room.disconnect()\<close>; when that
  resolves, the room client has run the \<^verbatim>\<open>Disconnected\<close> listener of a room that was
  open. The listener's updates and those of the lines after the \<^verbatim>\<open>await\<close> do not depend
  on each other, so the listener is applied to the result of \<^verbatim>\<open>disconnectFromRoom\<close>.
\<close>

definition click_disconnect :: "unit outcome \<Rightarrow> nat \<Rightarrow> app \<Rightarrow> app" where
  "click_disconnect disconnected now w =
     (let w' = disconnectFromRoom disconnected w
      in case room w of
           None \<Rightarrow> w'
         | Some r \<Rightarrow>
             (case disconnected of
                Rejected m \<Rightarrow> w'
              | Resolved _ \<Rightarrow> emit_Disconnected now r w'))"

text \<open>
  The auto-connect effect is keyed on \<^verbatim>\<open>[autoConnect]\<close>: it runs when the setting has
  changed.
\<close>

definition set_autoConnect :: "connect_env \<Rightarrow> bool \<Rightarrow> app \<Rightarrow> app" where
  "set_autoConnect env b w =
     (if autoConnect w = b then w else autoConnect_effect env (w\<lparr>autoConnect := b\<rparr>))"

text \<open>
  Everything that can happen to the component: the room events, the timers and animation
  frames it set, the answer to a token request, and the user's actions. Each carries
  what the platform supplies with it. A control that is not rendered, or is disabled,
  cannot be used: the Mute and Disconnect buttons and the chat box need
  \<^verbatim>\<open>connected\<close>, the tool cards are disabled without it, and the email forms exist
  while their popups are shown.
\<close>

datatype event =
    TrackSubscribed nat track_kind jsstring
  | AgentTimeout
  | LocalTrackPublished bool bool
  | ParticipantConnected nat jsstring "jsstring list"
  | ParticipantDisconnected nat jsstring "jsstring list"
  | ActiveSpeakersChanged "bool list"
  | Disconnected nat nat
  | ConnectionQualityChanged jsstring bool
  | DataReceived nat nat "byte list"
  | AnimationFrame nat "byte list"
  | ClickConnect connect_env
  | TokenAnswered connect_env nat
  | SetAutoConnect connect_env bool
  | ClickDisconnect "unit outcome" nat
  | ClickMute "unit outcome"
  | ClickTool nat nat "unit outcome" tool
  | EmailSubmit nat nat "unit outcome"
  | EmailSentTimeout
  | EmailClose
  | EmailSentClose
  | SendMessage nat nat nat "unit outcome"
  | SetInputMessage jsstring
  | SetEmailForm email_form

fun step :: "event \<Rightarrow> app \<Rightarrow> app" where
  "step (TrackSubscribed now k ident) w = on_TrackSubscribed now k ident w"
| "step AgentTimeout w = on_agent_timeout w"
| "step (LocalTrackPublished isLocal stream) w = on_LocalTrackPublished isLocal stream w"
| "step (ParticipantConnected now ident remotes) w = on_ParticipantConnected now ident remotes w"
| "step (ParticipantDisconnected now ident remotes) w =
     on_ParticipantDisconnected now ident remotes w"
| "step (ActiveSpeakersChanged speakers) w = on_ActiveSpeakersChanged speakers w"
| "step (Disconnected r now) w = rerender now w (emit_Disconnected now r w)"
| "step (ConnectionQualityChanged q isLocal) w = on_ConnectionQualityChanged q isLocal w"
| "step (DataReceived now now' payload) w = on_DataReceived now now' payload w"
| "step (AnimationFrame h dataArray) w = on_animation_frame h dataArray w"
| "step (ClickConnect env) w = click_connect env w"
| "step (TokenAnswered env now) w =
     (if connecting w then rerender now w (connectToRoom_resume env w) else w)"
| "step (SetAutoConnect env b) w = set_autoConnect env b w"
| "step (ClickDisconnect disconnected now) w =
     (if connected w then rerender now w (click_disconnect disconnected now w) else w)"
| "step (ClickMute enabled) w = (if connected w then toggleMute enabled w else w)"
| "step (ClickTool now now' published t) w =
     (if connected w then triggerTool now now' published t w else w)"
| "step (EmailSubmit now now' published) w =
     (if showEmailPopup w \<and> \<not> emailSending w then handleEmailSubmit now now' published w
      else w)"
| "step EmailSentTimeout w = on_email_sent_timeout w"
| "step EmailClose w = (if showEmailPopup w then handleEmailClose w else w)"
| "step EmailSentClose w = (if showEmailSentPopup w then handleEmailSentClose w else w)"
| "step (SendMessage now now' now'' published) w =
     (if connected w then sendMessage now now' now'' published w else w)"
| "step (SetInputMessage v) w = (if connected w then w\<lparr>inputMessage := v\<rparr> else w)"
| "step (SetEmailForm f) w = (if showEmailPopup w then w\<lparr>emailForm := f\<rparr> else w)"

fun run :: "event list \<Rightarrow> app \<Rightarrow> app" where
  "run [] w = w"
| "run (e # es) w = run es (step e w)"

section \<open>Notions used to state the properties\<close>

text \<open>A Unicode scalar value: a code point that is not a surrogate.\<close>

definition scalar :: "nat \<Rightarrow> bool" where
  "scalar cp = (cp < 0x110000 \<and> \<not> (0xD800 \<le> cp \<and> cp \<le> 0xDFFF))"

text \<open>Well-formed UTF-16: every surrogate is half of a pair.\<close>

fun well_formed :: "jsstring \<Rightarrow> bool" where
  "well_formed [] = True"
| "well_formed [c] = (\<not> is_surrogate c)"
| "well_formed (c # d # cs) =
     (if is_high_surrogate c \<and> is_low_surrogate d then well_formed cs
      else \<not> is_surrogate c \<and> well_formed (d # cs))"

text \<open>The tokens of a stringified UserCommand.\<close>

definition user_command_tokens :: "jsstring \<Rightarrow> nat \<Rightarrow> token list" where
  "user_command_tokens t now =
     [TLBrace, TString (js ''type''), TColon, TString (js ''user_command''), TComma,
      TString (js ''text''), TColon, TString t, TComma,
      TString (js ''ts''), TColon, TNumber (JNum False now 0), TRBrace]"



text \<open>
  The session cells agree: the state is not connected and connecting at once, and it is
  connected exactly when a room is set.
\<close>

definition session_inv :: "app \<Rightarrow> bool" where
  "session_inv w = (\<not> (connected w \<and> connecting w) \<and> connected w = (room w \<noteq> None))"

section \<open>Concrete states and environments\<close>

text \<open>A connected session with the agent in the room.\<close>

definition connected_app :: app where
  "connected_app =
     initial_app\<lparr>room := Some 1, connected := True,
       participants := [\<lparr>identity = js ''agent-1'', isAgent = True\<rparr>], liveRooms := [1]\<rparr>"

text \<open>An environment in which every step of connecting succeeds.\<close>

definition good_env :: connect_env where
  "good_env =
     \<lparr>random_id = 42,
      fetched = Resolved \<lparr>status = 200, statusText = js ''OK'',
                          json_body = Resolved (JObject [(js ''token'', JString (js ''jwt'')),
                                                         (js ''roomName'', JString ROOM_NAME)])\<rparr>,
      new_room = 2, room_connect = Resolved (), mic_enable = Resolved (),
      audio_suspended = False, meter_stream = True\<rparr>"

text \<open>A token server with the default limit of two, asked about a room that holds two.\<close>

definition full_room_env :: token_env where
  "full_room_env =
     \<lparr>MAX_PARTICIPANTS = None, room_participants = 2, toJwt = Resolved (js ''jwt'')\<rparr>"



text \<open>The same session with a message typed into the chat box.\<close>

definition typing_app :: app where
  "typing_app = connected_app\<lparr>inputMessage := js ''hi''\<rparr>"

text \<open>The bytes of an ASCII payload.\<close>

definition ascii_bytes :: "string \<Rightarrow> byte list" where
  "ascii_bytes s = map of_char s"

text \<open>Participant \<^verbatim>\<open>p\<close> joining at each of the given times, with no one else in the room.\<close>

definition joins :: "nat list \<Rightarrow> event list" where
  "joins ns = map (\<lambda>n. ParticipantConnected n (js ''p'') []) ns"



section \<open>Properties of the meter\<close>










section \<open>Properties of the session controller\<close>

text \<open>
  Claim C9. Triggering the tool with key \<^verbatim>\<open>send_email\<close> while connected only sets the
  compose-popup flag: nothing is published on the data channel (the effect trace is
  unchanged), and the chat log, the event log and the connection state stay as they were.
\<close>

theorem triggerTool_email_only_opens_popup:
  "connected w \<Longrightarrow> room w \<noteq> None \<Longrightarrow> key t = js ''send_email'' \<Longrightarrow>
   triggerTool now now' published t w = w\<lparr>showEmailPopup := True\<rparr>
   \<and> effects (triggerTool now now' published t w) = effects w
   \<and> messages (triggerTool now now' published t w) = messages w
   \<and> logs (triggerTool now now' published t w) = logs w
   \<and> connected (triggerTool now now' published t w) = connected w
   \<and> connecting (triggerTool now now' published t w) = connecting w
   \<and> room (triggerTool now now' published t w) = room w"
  by (auto simp add: triggerTool_def)

theorem triggerTool_email_only_opens_popup_witness:
  "connected connected_app \<and> room connected_app \<noteq> None \<and> key (tools ! 2) = js ''send_email''
   \<and> triggerTool 5 6 (Resolved ()) (tools ! 2) connected_app = connected_app\<lparr>showEmailPopup := True\<rparr>"
  using triggerTool_email_only_opens_popup[of connected_app "tools ! 2" 5 6 "Resolved ()"]
  by (simp add: connected_app_def initial_app_def tools_def)

text \<open>
  The handler of \<^verbatim>\<open>Disconnected\<close> never touches the participant list and takes the
  meter's pending frame off the browser's list; \<^verbatim>\<open>disconnectFromRoom\<close> empties the
  list.
\<close>

lemma on_Disconnected_participants: "participants (on_Disconnected now w) = participants w"
  by (simp add: on_Disconnected_def setLogs_def cancel_level_raf_def split: option.splits)

lemma on_Disconnected_cancels:
  "levelRafRef w = Some h \<Longrightarrow> h \<noteq> 0 \<Longrightarrow> h \<notin> set (rafPending (on_Disconnected now w))"
  by (simp add: on_Disconnected_def setLogs_def cancel_level_raf_def)

lemma disconnectFromRoom_participants:
  "room w \<noteq> None \<Longrightarrow> participants (disconnectFromRoom (Resolved ()) w) = []"
  by (auto simp: disconnectFromRoom_def do_effect_def cancel_level_raf_def Let_def
      split: option.splits)

text \<open>
  Claim C2. The claim is that the handler of a remote \<^verbatim>\<open>Disconnected\<close> event leaves the
  same state as \<^verbatim>\<open>disconnectFromRoom\<close>, the participant list cleared. On a connected
  session with the agent in the room, the handler keeps the agent in the list, while
  \<^verbatim>\<open>disconnectFromRoom\<close> empties it; both leave \<^verbatim>\<open>connected\<close> false and the room unset.
\<close>

theorem on_Disconnected_keeps_participants:
  "participants (on_Disconnected 7 connected_app) = [\<lparr>identity = js ''agent-1'', isAgent = True\<rparr>]
   \<and> participants (disconnectFromRoom (Resolved ()) connected_app) = []
   \<and> \<not> connected (on_Disconnected 7 connected_app)
   \<and> room (on_Disconnected 7 connected_app) = None
   \<and> \<not> connected (disconnectFromRoom (Resolved ()) connected_app)
   \<and> room (disconnectFromRoom (Resolved ()) connected_app) = None"
  by (simp add: on_Disconnected_def disconnectFromRoom_def connected_app_def initial_app_def
      setLogs_def cancel_level_raf_def do_effect_def)

section \<open>Properties of the event log\<close>

lemma append_log_le: "length (append_log now m l) \<le> 50"
  by (simp add: append_log_def)

lemma logs_cancel_level_raf [simp]: "logs (cancel_level_raf w) = logs w"
  by (simp add: cancel_level_raf_def split: option.splits)

lemma logs_request_level_raf [simp]: "logs (request_level_raf w) = logs w"
  by (simp add: request_level_raf_def)

lemma logs_do_effect [simp]: "logs (do_effect e w) = logs w"
  by (simp add: do_effect_def)

lemma logs_setupMicLevelAnalyser [simp]: "logs (setupMicLevelAnalyser b w) = logs w"
  by (simp add: setupMicLevelAnalyser_def setupWithStream_def)

lemma logs_connectToRoom_begin [simp]: "logs (connectToRoom_begin env w) = logs w"
  by (simp add: connectToRoom_begin_def)

lemma logs_connectToRoom_resume [simp]: "logs (connectToRoom_resume env w) = logs w"
  by (simp add: connectToRoom_resume_def connect_failed_def Let_def split: outcome.splits)

lemma logs_disconnectFromRoom [simp]: "logs (disconnectFromRoom d w) = logs w"
  by (simp add: disconnectFromRoom_def Let_def split: option.splits outcome.splits)

lemma logs_on_Disconnected:
  "logs (on_Disconnected now w) = append_log now (js ''Disconnected from room'') (logs w)"
  by (simp add: on_Disconnected_def setLogs_def)

lemma len_emit_Disconnected:
  "length (logs w) \<le> 50 \<Longrightarrow> length (logs (emit_Disconnected now r w)) \<le> 50"
  by (simp add: emit_Disconnected_def logs_on_Disconnected append_log_le)

lemma len_room_effect_cleanup:
  "length (logs w) \<le> 50 \<Longrightarrow> length (logs (room_effect_cleanup now old w)) \<le> 50"
  by (simp add: room_effect_cleanup_def room_disconnect_def len_emit_Disconnected
      split: option.splits)

lemma len_rerender:
  "length (logs w') \<le> 50 \<Longrightarrow> length (logs (rerender now w w')) \<le> 50"
  by (simp add: rerender_def Let_def len_room_effect_cleanup)

lemma len_click_disconnect:
  "length (logs w) \<le> 50 \<Longrightarrow> length (logs (click_disconnect d now w)) \<le> 50"
  by (simp add: click_disconnect_def Let_def len_emit_Disconnected
      split: option.splits outcome.splits)

lemma logs_on_DataReceived:
  "length (logs w) \<le> 50 \<Longrightarrow> length (logs (on_DataReceived now now' payload w)) \<le> 50"
  by (auto simp: on_DataReceived_def DataReceived_handler_def DataReceived_try_def setLogs_def
      append_log_le Let_def split: sum.splits option.splits if_splits)

lemma step_logs: "length (logs w) \<le> 50 \<Longrightarrow> length (logs (step e w)) \<le> 50"
proof (cases e)
  case (DataReceived now now' payload)
  assume "length (logs w) \<le> 50"
  then show ?thesis
    using DataReceived by (simp add: logs_on_DataReceived)
next
  case (TrackSubscribed now k ident)
  then show ?thesis
    by (simp add: on_TrackSubscribed_def Let_def setLogs_def append_log_le)
next
  case (Disconnected r now)
  assume "length (logs w) \<le> 50"
  then show ?thesis
    using Disconnected by (simp add: len_rerender len_emit_Disconnected)
next
  case (TokenAnswered env now)
  assume "length (logs w) \<le> 50"
  then show ?thesis
    using TokenAnswered by (simp add: len_rerender)
next
  case (ClickDisconnect d now)
  assume "length (logs w) \<le> 50"
  then show ?thesis
    using ClickDisconnect by (simp add: len_rerender len_click_disconnect)
qed (auto simp: on_agent_timeout_def on_LocalTrackPublished_def on_ParticipantConnected_def
     on_ParticipantDisconnected_def updateParticipants_def on_ActiveSpeakersChanged_def
     on_ConnectionQualityChanged_def on_animation_frame_def tick_def
     click_connect_def autoConnect_effect_def set_autoConnect_def toggleMute_def
     triggerTool_def handleEmailSubmit_def on_email_sent_timeout_def handleEmailClose_def
     handleEmailSentClose_def sendMessage_def setLogs_def append_log_le Let_def
     split: option.splits outcome.splits)

lemma run_logs: "length (logs w) \<le> 50 \<Longrightarrow> length (logs (run es w)) \<le> 50"
  by (induction es arbitrary: w) (simp_all add: step_logs)

lemma run_append: "run (es @ es') w = run es' (run es w)"
  by (induction es arbitrary: w) simp_all

lemma take_append_log: "take 50 (xs @ append_log now m l) = take 50 (xs @ \<lparr>ts = now, msg = m\<rparr> # l)"
  by (simp add: append_log_def take_Cons' min_def)

lemma logs_on_ParticipantConnected:
  "logs (on_ParticipantConnected n ident remotes w) = append_log n (js ''+ '' @ ident) (logs w)"
  by (simp add: on_ParticipantConnected_def updateParticipants_def setLogs_def)

lemma logs_on_ParticipantDisconnected:
  "logs (on_ParticipantDisconnected n ident remotes w) = append_log n (js ''- '' @ ident) (logs w)"
  by (simp add: on_ParticipantDisconnected_def updateParticipants_def setLogs_def)

lemma logs_joins:
  "logs (run (joins ns) w) =
     take 50 (rev (map (\<lambda>n. \<lparr>ts = n, msg = js ''+ p''\<rparr>) ns) @ logs w)"
  if "length (logs w) \<le> 50"
  using that
proof (induction ns arbitrary: w)
  case Nil
  then show ?case by (simp add: joins_def)
next
  case (Cons n ns)
  let ?w = "on_ParticipantConnected n (js ''p'') [] w"
  have j: "js ''+ '' @ js ''p'' = js ''+ p''"
    by (simp add: js_def)
  have l: "logs ?w = append_log n (js ''+ p'') (logs w)"
    by (simp only: logs_on_ParticipantConnected j)
  have "length (logs ?w) \<le> 50"
    unfolding l by (rule append_log_le)
  from Cons.IH[OF this]
  have "logs (run (joins ns) ?w) =
      take 50 (rev (map (\<lambda>n. \<lparr>ts = n, msg = js ''+ p''\<rparr>) ns) @ \<lparr>ts = n, msg = js ''+ p''\<rparr> # logs w)"
    by (simp only: l take_append_log)
  moreover have "run (joins (n # ns)) w = run (joins ns) ?w"
    by (simp add: joins_def)
  ultimately show ?case
    by simp
qed

text \<open>
  Claim C4. After any sequence of events, from the initial state, the log holds at most
  50 entries. A participant joining or leaving appends one entry, which is then the
  first of the log. On a log of fewer than 50 nothing is dropped; on a log of 50 the
  result is the new entry followed by the first 49, so exactly the last entry, which is
  the oldest, is dropped, and when the entries are distinct it is no longer in the log.
\<close>

theorem logs_bounded_fifo:
  "length (logs (run es initial_app)) \<le> 50
   \<and> logs (step (ParticipantConnected now ident remotes) w) =
       append_log now (js ''+ '' @ ident) (logs w)
   \<and> logs (step (ParticipantDisconnected now ident remotes) w) =
       append_log now (js ''- '' @ ident) (logs w)
   \<and> hd (logs (step (ParticipantConnected now ident remotes) w)) =
       \<lparr>ts = now, msg = js ''+ '' @ ident\<rparr>
   \<and> hd (logs (step (ParticipantDisconnected now ident remotes) w)) =
       \<lparr>ts = now, msg = js ''- '' @ ident\<rparr>
   \<and> (length (logs w) < 50 \<longrightarrow>
        logs (step (ParticipantConnected now ident remotes) w) =
          \<lparr>ts = now, msg = js ''+ '' @ ident\<rparr> # logs w
        \<and> logs (step (ParticipantDisconnected now ident remotes) w) =
          \<lparr>ts = now, msg = js ''- '' @ ident\<rparr> # logs w)
   \<and> (length (logs w) = 50 \<longrightarrow>
        logs (step (ParticipantConnected now ident remotes) w) =
          \<lparr>ts = now, msg = js ''+ '' @ ident\<rparr> # butlast (logs w)
        \<and> logs (step (ParticipantDisconnected now ident remotes) w) =
          \<lparr>ts = now, msg = js ''- '' @ ident\<rparr> # butlast (logs w)
        \<and> length (logs (step (ParticipantConnected now ident remotes) w)) = 50
        \<and> length (logs (step (ParticipantDisconnected now ident remotes) w)) = 50
        \<and> (distinct (logs w) \<and> last (logs w) \<noteq> \<lparr>ts = now, msg = js ''+ '' @ ident\<rparr> \<longrightarrow>
             last (logs w) \<notin> set (logs (step (ParticipantConnected now ident remotes) w)))
        \<and> (distinct (logs w) \<and> last (logs w) \<noteq> \<lparr>ts = now, msg = js ''- '' @ ident\<rparr> \<longrightarrow>
             last (logs w) \<notin> set (logs (step (ParticipantDisconnected now ident remotes) w))))
   \<and> (length l = 50 \<longrightarrow>
        append_log now m l = \<lparr>ts = now, msg = m\<rparr> # butlast l
        \<and> length (append_log now m l) = 50
        \<and> hd (append_log now m l) = \<lparr>ts = now, msg = m\<rparr>
        \<and> (distinct l \<longrightarrow> last l \<notin> set (butlast l)))"
proof -
  have bound: "length (logs (run es initial_app)) \<le> 50"
    by (rule run_logs) (simp add: initial_app_def)
  have joined: "logs (step (ParticipantConnected now ident remotes) w) =
       append_log now (js ''+ '' @ ident) (logs w)"
    and left: "logs (step (ParticipantDisconnected now ident remotes) w) =
       append_log now (js ''- '' @ ident) (logs w)"
    by (simp_all add: logs_on_ParticipantConnected logs_on_ParticipantDisconnected)
  have short: "append_log t x k = \<lparr>ts = t, msg = x\<rparr> # k" if "length k < 50" for t x k
    using that by (simp add: append_log_def)
  have full: "append_log t x k = \<lparr>ts = t, msg = x\<rparr> # butlast k" if "length k = 50" for t x k
    using that by (simp add: append_log_def butlast_conv_take)
  have first: "hd (append_log t x k) = \<lparr>ts = t, msg = x\<rparr>" for t x k
    by (simp add: append_log_def)
  have oldest: "last k \<notin> set (butlast k)" if "length k = 50" "distinct k" for k :: "log_entry list"
  proof -
    from that(1) have "k \<noteq> []" by auto
    then have "k = butlast k @ [last k]" by simp
    then have "distinct (butlast k @ [last k])" using that(2) by simp
    then show ?thesis by simp
  qed
  have gone: "last k \<notin> set (append_log t x k)"
    if "length k = 50" "distinct k" "last k \<noteq> \<lparr>ts = t, msg = x\<rparr>" for t x k
    using that oldest[of k] by (simp add: full)
  have len: "length (append_log t x k) = 50" if "length k = 50" for t x k
    using that by (simp add: append_log_def)
  show ?thesis
    unfolding joined left
    using bound short full first oldest gone len by blast
qed

theorem logs_bounded_fifo_witness:
  "length (logs (run (joins [1..<51]) initial_app)) = 50
   \<and> last (logs (run (joins [1..<51]) initial_app)) = \<lparr>ts = 1, msg = js ''+ p''\<rparr>
   \<and> logs (run (joins [1..<52]) initial_app) =
       \<lparr>ts = 51, msg = js ''+ p''\<rparr> # butlast (logs (run (joins [1..<51]) initial_app))
   \<and> length (logs (run (joins [1..<52]) initial_app)) = 50
   \<and> \<lparr>ts = 1, msg = js ''+ p''\<rparr> \<notin> set (logs (run (joins [1..<52]) initial_app))
   \<and> \<lparr>ts = 51, msg = js ''+ p''\<rparr> \<in> set (logs (run (joins [1..<52]) initial_app))"
proof -
  let ?w = "run (joins [1..<51]) initial_app"
  have l0: "length (logs initial_app) \<le> 50" "logs initial_app = []"
    by (simp_all add: initial_app_def)
  have l: "logs ?w = rev (map (\<lambda>n. \<lparr>ts = n, msg = js ''+ p''\<rparr>) [1..<51])"
    by (simp add: logs_joins[OF l0(1)] l0(2))
  have len: "length (logs ?w) = 50"
    unfolding l by simp
  have dist: "distinct (logs ?w)"
    unfolding l by (simp add: distinct_map inj_on_def)
  have la: "last (logs ?w) = \<lparr>ts = 1, msg = js ''+ p''\<rparr>"
    unfolding l by (simp add: last_rev upt_rec)
  have u: "[1..<52] = [1..<51] @ [51 :: nat]"
  proof -
    have "(52 :: nat) = Suc 51"
      by simp
    moreover have "[1..<Suc 51] = [1..<51] @ [51 :: nat]"
      by (rule upt_Suc_append) simp
    ultimately show ?thesis
      by (simp only:)
  qed
  have r: "run (joins [1..<52]) initial_app = step (ParticipantConnected 51 (js ''p'') []) ?w"
    unfolding u joins_def by (simp only: map_append run_append list.map run.simps)
      
  have ne: "last (logs ?w) \<noteq> \<lparr>ts = 51, msg = js ''+ '' @ js ''p''\<rparr>"
    unfolding la by simp
  have j: "js ''+ '' @ js ''p'' = js ''+ p''"
    by (simp add: js_def)
  from logs_bounded_fifo[where w = ?w and now = 51 and ident = "js ''p''" and remotes = "[]"]
    len dist ne
  have "logs (step (ParticipantConnected 51 (js ''p'') []) ?w) =
          \<lparr>ts = 51, msg = js ''+ '' @ js ''p''\<rparr> # butlast (logs ?w)
        \<and> length (logs (step (ParticipantConnected 51 (js ''p'') []) ?w)) = 50
        \<and> last (logs ?w) \<notin> set (logs (step (ParticipantConnected 51 (js ''p'') []) ?w))"
    by blast
  with len la r j show ?thesis
    by auto
qed

section \<open>Properties of connecting\<close>

text \<open>What each part of a transition adds to the effect trace.\<close>

lemma effects_cancel_level_raf [simp]: "effects (cancel_level_raf w) = effects w"
  by (simp add: cancel_level_raf_def split: option.splits)

lemma effects_request_level_raf [simp]: "effects (request_level_raf w) = effects w"
  by (simp add: request_level_raf_def)

lemma effects_setLogs [simp]: "effects (setLogs now m w) = effects w"
  by (simp add: setLogs_def)

lemma effects_do_effect [simp]: "effects (do_effect e w) = effects w @ [e]"
  by (simp add: do_effect_def)

lemma effects_setupMicLevelAnalyser [simp]: "effects (setupMicLevelAnalyser b w) = effects w"
  by (simp add: setupMicLevelAnalyser_def setupWithStream_def)

lemma effects_on_Disconnected [simp]: "effects (on_Disconnected now w) = effects w"
  by (simp add: on_Disconnected_def)

lemma effects_emit_Disconnected [simp]: "effects (emit_Disconnected now r w) = effects w"
  by (simp add: emit_Disconnected_def)



lemma effects_on_DataReceived [simp]: "effects (on_DataReceived now now' payload w) = effects w"
  by (auto simp: on_DataReceived_def DataReceived_handler_def DataReceived_try_def Let_def
      split: sum.splits option.splits if_splits)





text \<open>The session invariant is kept by every transition.\<close>

lemma session_cancel_level_raf [simp]:
  "connected (cancel_level_raf w) = connected w" "connecting (cancel_level_raf w) = connecting w"
  "room (cancel_level_raf w) = room w"
  by (simp_all add: cancel_level_raf_def split: option.splits)

lemma session_request_level_raf [simp]:
  "connected (request_level_raf w) = connected w" "connecting (request_level_raf w) = connecting w"
  "room (request_level_raf w) = room w"
  by (simp_all add: request_level_raf_def)

lemma session_setLogs [simp]:
  "connected (setLogs now m w) = connected w" "connecting (setLogs now m w) = connecting w"
  "room (setLogs now m w) = room w"
  by (simp_all add: setLogs_def)

lemma session_do_effect [simp]:
  "connected (do_effect e w) = connected w" "connecting (do_effect e w) = connecting w"
  "room (do_effect e w) = room w"
  by (simp_all add: do_effect_def)

lemma session_setupMicLevelAnalyser [simp]:
  "connected (setupMicLevelAnalyser b w) = connected w"
  "connecting (setupMicLevelAnalyser b w) = connecting w"
  "room (setupMicLevelAnalyser b w) = room w"
  by (simp_all add: setupMicLevelAnalyser_def setupWithStream_def)

lemma session_on_DataReceived [simp]:
  "connected (on_DataReceived now now' payload w) = connected w"
  "connecting (on_DataReceived now now' payload w) = connecting w"
  "room (on_DataReceived now now' payload w) = room w"
  by (auto simp: on_DataReceived_def DataReceived_handler_def DataReceived_try_def Let_def
      split: sum.splits option.splits if_splits)

lemma session_inv_cancel_level_raf [simp]: "session_inv (cancel_level_raf w) = session_inv w"
  by (simp add: session_inv_def)

lemma session_inv_do_effect [simp]: "session_inv (do_effect e w) = session_inv w"
  by (simp add: session_inv_def)












section \<open>Properties of the token server\<close>

text \<open>
  Claim C7. The claim is that a token request for a full room is answered with 403 and
  no token, and that the client then never connects. \<^verbatim>\<open>roomService.getRoom\<close> throws
  inside the \<^verbatim>\<open>try\<close>, so the server counts no participants in any room. With the default
  limit of two and a room that holds two, the request of \<^verbatim>\<open>connectToRoom\<close> is answered
  with status 200 and a token, and \<^verbatim>\<open>connectToRoom\<close> opens a room, connects to it with
  that token, and ends connected.
\<close>

theorem token_route_full_room_gets_token:
  "room_participants full_room_env = 2
   \<and> maxParticipants full_room_env = Some 2
   \<and> participants_length env = 0
   \<and> \<not> room_is_full full_room_env
   \<and> token_route full_room_env (client_request good_env) =
       \<lparr>reply_status = 200,
        reply_body = JObject [(js ''token'', JString (js ''jwt'')),
                              (js ''roomName'', JString ROOM_NAME)]\<rparr>
   \<and> effects (connectToRoom
         (good_env\<lparr>fetched := Resolved (as_response (js ''OK'')
            (token_route full_room_env (client_request good_env)))\<rparr>) initial_app) =
       [FetchToken (js ''user_42'') ROOM_NAME, NewRoom 2,
        RoomConnect LIVEKIT_URL (Some (JString (js ''jwt''))), SetMicrophoneEnabled True]
   \<and> connected (connectToRoom
         (good_env\<lparr>fetched := Resolved (as_response (js ''OK'')
            (token_route full_room_env (client_request good_env)))\<rparr>) initial_app)"
proof -
  have m: "maxParticipants full_room_env = Some 2"
    by (simp add: maxParticipants_def full_room_env_def parseInt10_def js_def
        is_js_whitespace_def is_digit_def digits_value_def)
  have l: "participants_length e = 0" for e
    by (simp add: participants_length_def roomService_getRoom_def)
  have f: "\<not> room_is_full full_room_env"
    by (simp add: room_is_full_def m l)
  have r: "token_route full_room_env (client_request good_env) =
       \<lparr>reply_status = 200,
        reply_body = JObject [(js ''token'', JString (js ''jwt'')),
                              (js ''roomName'', JString ROOM_NAME)]\<rparr>"
    using f by (simp add: token_route_def client_request_def client_identity_def truthy_def
        full_room_env_def js_def ROOM_NAME_def)
  have c: "connectToRoom
         (good_env\<lparr>fetched := Resolved (as_response (js ''OK'')
            \<lparr>reply_status = 200,
        reply_body = JObject [(js ''token'', JString (js ''jwt'')),
                              (js ''roomName'', JString ROOM_NAME)]\<rparr>)\<rparr>) initial_app
      = connectToRoom good_env initial_app"
    by (simp add: as_response_def good_env_def)
  have e: "effects (connectToRoom good_env initial_app) =
       [FetchToken (js ''user_42'') ROOM_NAME, NewRoom 2,
        RoomConnect LIVEKIT_URL (Some (JString (js ''jwt''))), SetMicrophoneEnabled True]"
     "connected (connectToRoom good_env initial_app)"
    by (simp_all add: connectToRoom_def connectToRoom_begin_def connectToRoom_resume_def
      initial_app_def do_effect_def good_env_def getToken_def get_prop_def own_prop_def
      client_identity_def
      response_ok_def decimal.simps js_def setupMicLevelAnalyser_def setupWithStream_def
      cancel_level_raf_def request_level_raf_def)
  show ?thesis
    unfolding r c using m l f e by (simp add: full_room_env_def)
qed

section \<open>Properties of the data-channel decoder\<close>

lemmas eval_defs =
  ascii_bytes_def TextDecoder_decode_def utf8_decode.simps utf8_handler_def utf8_initial_def
  strip_bom_def utf16_units_def
  JSON_parse_def js_def is_json_ws_def cons_token_def cons_char_def is_digit_def begin_value_def
  lex_number_def lex_int_def lex_frac_def lex_exp_def digits_value_def
  get_prop_def own_prop_def truthy_def js_or_def trim_def is_js_whitespace_def
  DataReceived_handler_def DataReceived_try_def on_DataReceived_def setLogs_def
  lex_string.simps lex.simps

text \<open>
  Claim C5. The payload \<^verbatim>\<open>{"type":"assistant_message","message":"hi"}\<close> appends a chat
  entry from the assistant with text \<^verbatim>\<open>hi\<close>; so does the same message with the text
  under \<^verbatim>\<open>text\<close> instead of \<^verbatim>\<open>message\<close>; and the bytes \<^verbatim>\<open>hello\<close>, which are not JSON,
  append an entry from the assistant with text \<^verbatim>\<open>hello\<close>.
\<close>

theorem DataReceived_assistant_message_and_fallback:
  "DataReceived_handler now now' (ascii_bytes ''{\"type\":\"assistant_message\",\"message\":\"hi\"}'') w =
     Inr (w\<lparr>messages := messages w @
            [\<lparr>msg_id = now, msg_sender = Assistant, msg_text = Some (JString (js ''hi'')),
              msg_images = JArray [], msg_timestamp = now'\<rparr>]\<rparr>)
   \<and> DataReceived_handler now now' (ascii_bytes ''{\"type\":\"assistant_message\",\"text\":\"hi\"}'') w =
     Inr (w\<lparr>messages := messages w @
            [\<lparr>msg_id = now, msg_sender = Assistant, msg_text = Some (JString (js ''hi'')),
              msg_images = JArray [], msg_timestamp = now'\<rparr>]\<rparr>)
   \<and> JSON_parse (TextDecoder_decode (ascii_bytes ''hello'')) = None
   \<and> DataReceived_handler now now' (ascii_bytes ''hello'') w =
     Inr (w\<lparr>messages := messages w @
            [\<lparr>msg_id = now, msg_sender = Assistant, msg_text = Some (JString (js ''hello'')),
              msg_images = JArray [], msg_timestamp = now'\<rparr>]\<rparr>)"
  by (simp add: eval_defs)




text \<open>
  Claim C10. The claim is that valid JSON without a known \<^verbatim>\<open>type\<close> is dropped. The
  payload \<^verbatim>\<open>null\<close> is valid JSON; reading \<^verbatim>\<open>data.type\<close> off it throws inside the
  \<^verbatim>\<open>try\<close>, the \<^verbatim>\<open>catch\<close> meant for text that is not JSON runs, and the chat gains an
  entry with the text \<^verbatim>\<open>null\<close>.
\<close>

theorem on_DataReceived_null_appends_entry:
  "JSON_parse (TextDecoder_decode (ascii_bytes ''null'')) = Some JNull
   \<and> DataReceived_try 1 2 (ascii_bytes ''null'') initial_app = Inl TypeError
   \<and> messages (on_DataReceived 1 2 (ascii_bytes ''null'') initial_app) =
       [\<lparr>msg_id = 1, msg_sender = Assistant, msg_text = Some (JString (js ''null'')),
         msg_images = JArray [], msg_timestamp = 2\<rparr>]"
  by (simp add: eval_defs initial_app_def)

text \<open>
  What the listener does on every payload: the state changes only for an object of type
  \<^verbatim>\<open>email_popup_trigger\<close> or \<^verbatim>\<open>assistant_message\<close>, and for text that is not blank
  and either is not JSON or is the JSON value \<^verbatim>\<open>null\<close>.
\<close>

lemma on_DataReceived_changes:
  assumes "on_DataReceived now now' payload w \<noteq> w"
  shows "(\<exists>data. JSON_parse (TextDecoder_decode payload) = Some data \<and> data \<noteq> JNull
            \<and> (own_prop data (js ''type'') = Some (JString (js ''email_popup_trigger''))
                 \<or> own_prop data (js ''type'') = Some (JString (js ''assistant_message''))))
         \<or> ((JSON_parse (TextDecoder_decode payload) = None
               \<or> JSON_parse (TextDecoder_decode payload) = Some JNull)
             \<and> trim (TextDecoder_decode payload) \<noteq> [])"
proof (cases "JSON_parse (TextDecoder_decode payload)")
  case None
  then have "DataReceived_try now now' payload w = Inl SyntaxError"
    by (simp add: DataReceived_try_def)
  with assms have "trim (TextDecoder_decode payload) \<noteq> []"
    by (simp add: on_DataReceived_def DataReceived_handler_def Let_def split: if_splits)
  with None show ?thesis by simp
next
  case (Some data)
  show ?thesis
  proof (cases "data = JNull")
    case True
    with Some have "DataReceived_try now now' payload w = Inl TypeError"
      by (simp add: DataReceived_try_def get_prop_def)
    with assms have "trim (TextDecoder_decode payload) \<noteq> []"
      by (simp add: on_DataReceived_def DataReceived_handler_def Let_def split: if_splits)
    with Some True show ?thesis by simp
  next
    case False
    have "own_prop data (js ''type'') = Some (JString (js ''email_popup_trigger''))
        \<or> own_prop data (js ''type'') = Some (JString (js ''assistant_message''))"
    proof (rule ccontr)
      assume "\<not> ?thesis"
      with Some False have "DataReceived_try now now' payload w = Inr w"
        by (simp add: DataReceived_try_def get_prop_def)
      with assms show False
        by (simp add: on_DataReceived_def DataReceived_handler_def)
    qed
    with Some False show ?thesis by simp
  qed
qed

section \<open>Decoding what the encoder wrote\<close>

subsection \<open>The UTF-8 decoder on well-formed sequences\<close>

lemma decode_Continue:
  "utf8_handler st b = Continue st' \<Longrightarrow> utf8_decode st (b # bs) = utf8_decode st' bs"
  by (simp add: utf8_decode.simps)

lemma decode_CodePoint:
  "utf8_handler st b = CodePoint cp st' \<Longrightarrow> utf8_decode st (b # bs) = cp # utf8_decode st' bs"
  by (simp add: utf8_decode.simps)

lemma handler_trail:
  assumes "bytes_needed st \<noteq> 0" "lower_boundary st \<le> b" "b \<le> upper_boundary st"
  shows "utf8_handler st b =
    (if bytes_seen st + 1 \<noteq> bytes_needed st
     then Continue (st\<lparr>lower_boundary := 0x80, upper_boundary := 0xBF,
                       code_point := code_point st * 64 + b mod 64,
                       bytes_seen := bytes_seen st + 1\<rparr>)
     else CodePoint (code_point st * 64 + b mod 64) utf8_initial)"
  using assms by (simp add: utf8_handler_def Let_def)

lemma decode_1:
  "b \<le> 0x7F \<Longrightarrow> utf8_decode utf8_initial (b # rest) = b # utf8_decode utf8_initial rest"
  by (rule decode_CodePoint) (simp add: utf8_handler_def utf8_initial_def)

lemma decode_2:
  assumes "0xC2 \<le> b1" "b1 \<le> 0xDF" "0x80 \<le> b2" "b2 \<le> 0xBF"
  shows "utf8_decode utf8_initial (b1 # b2 # rest) =
           (b1 mod 32 * 64 + b2 mod 64) # utf8_decode utf8_initial rest"
proof -
  define st1 where "st1 = utf8_initial\<lparr>bytes_needed := 1, code_point := b1 mod 32\<rparr>"
  have "utf8_handler utf8_initial b1 = Continue st1"
    using assms by (simp add: utf8_handler_def utf8_initial_def st1_def)
  then have "utf8_decode utf8_initial (b1 # b2 # rest) = utf8_decode st1 (b2 # rest)"
    by (rule decode_Continue)
  moreover have "utf8_handler st1 b2 = CodePoint (b1 mod 32 * 64 + b2 mod 64) utf8_initial"
    using assms by (subst handler_trail) (simp_all add: st1_def utf8_initial_def)
  ultimately show ?thesis
    by (simp add: decode_CodePoint)
qed

lemma decode_3:
  assumes "0xE0 \<le> b1" "b1 \<le> 0xEF"
    and "b1 = 0xE0 \<Longrightarrow> 0xA0 \<le> b2" "b1 = 0xED \<Longrightarrow> b2 \<le> 0x9F" "0x80 \<le> b2" "b2 \<le> 0xBF"
    and "0x80 \<le> b3" "b3 \<le> 0xBF"
  shows "utf8_decode utf8_initial (b1 # b2 # b3 # rest) =
           ((b1 mod 16 * 64 + b2 mod 64) * 64 + b3 mod 64) # utf8_decode utf8_initial rest"
proof -
  define st1 where "st1 =
    utf8_initial\<lparr>lower_boundary := (if b1 = 0xE0 then 0xA0 else 0x80),
                 upper_boundary := (if b1 = 0xED then 0x9F else 0xBF),
                 bytes_needed := 2, code_point := b1 mod 16\<rparr>"
  define st2 where "st2 =
    st1\<lparr>lower_boundary := 0x80, upper_boundary := 0xBF,
        code_point := b1 mod 16 * 64 + b2 mod 64, bytes_seen := 1\<rparr>"
  have "utf8_handler utf8_initial b1 = Continue st1"
    using assms(1,2) by (simp add: utf8_handler_def utf8_initial_def st1_def)
  then have a: "utf8_decode utf8_initial (b1 # b2 # b3 # rest) = utf8_decode st1 (b2 # b3 # rest)"
    by (rule decode_Continue)
  have "utf8_handler st1 b2 = Continue st2"
    using assms(3-6) by (subst handler_trail) (simp_all add: st1_def st2_def utf8_initial_def)
  then have b: "utf8_decode st1 (b2 # b3 # rest) = utf8_decode st2 (b3 # rest)"
    by (rule decode_Continue)
  have "utf8_handler st2 b3 =
      CodePoint ((b1 mod 16 * 64 + b2 mod 64) * 64 + b3 mod 64) utf8_initial"
    using assms(7,8) by (subst handler_trail) (simp_all add: st1_def st2_def utf8_initial_def)
  then have "utf8_decode st2 (b3 # rest) =
      ((b1 mod 16 * 64 + b2 mod 64) * 64 + b3 mod 64) # utf8_decode utf8_initial rest"
    by (rule decode_CodePoint)
  with a b show ?thesis by simp
qed

lemma decode_4:
  assumes "0xF0 \<le> b1" "b1 \<le> 0xF4"
    and "b1 = 0xF0 \<Longrightarrow> 0x90 \<le> b2" "b1 = 0xF4 \<Longrightarrow> b2 \<le> 0x8F" "0x80 \<le> b2" "b2 \<le> 0xBF"
    and "0x80 \<le> b3" "b3 \<le> 0xBF" "0x80 \<le> b4" "b4 \<le> 0xBF"
  shows "utf8_decode utf8_initial (b1 # b2 # b3 # b4 # rest) =
           (((b1 mod 8 * 64 + b2 mod 64) * 64 + b3 mod 64) * 64 + b4 mod 64)
           # utf8_decode utf8_initial rest"
proof -
  define st1 where "st1 =
    utf8_initial\<lparr>lower_boundary := (if b1 = 0xF0 then 0x90 else 0x80),
                 upper_boundary := (if b1 = 0xF4 then 0x8F else 0xBF),
                 bytes_needed := 3, code_point := b1 mod 8\<rparr>"
  define st2 where "st2 =
    st1\<lparr>lower_boundary := 0x80, upper_boundary := 0xBF,
        code_point := b1 mod 8 * 64 + b2 mod 64, bytes_seen := 1\<rparr>"
  define st3 where "st3 =
    st2\<lparr>code_point := (b1 mod 8 * 64 + b2 mod 64) * 64 + b3 mod 64, bytes_seen := 2\<rparr>"
  have "utf8_handler utf8_initial b1 = Continue st1"
    using assms(1,2) by (simp add: utf8_handler_def utf8_initial_def st1_def)
  then have a: "utf8_decode utf8_initial (b1 # b2 # b3 # b4 # rest) =
      utf8_decode st1 (b2 # b3 # b4 # rest)"
    by (rule decode_Continue)
  have "utf8_handler st1 b2 = Continue st2"
    using assms(3-6) by (subst handler_trail) (simp_all add: st1_def st2_def utf8_initial_def)
  then have b: "utf8_decode st1 (b2 # b3 # b4 # rest) = utf8_decode st2 (b3 # b4 # rest)"
    by (rule decode_Continue)
  have "utf8_handler st2 b3 = Continue st3"
    using assms(7,8)
    by (subst handler_trail) (simp_all add: st1_def st2_def st3_def utf8_initial_def)
  then have c: "utf8_decode st2 (b3 # b4 # rest) = utf8_decode st3 (b4 # rest)"
    by (rule decode_Continue)
  have "utf8_handler st3 b4 =
      CodePoint (((b1 mod 8 * 64 + b2 mod 64) * 64 + b3 mod 64) * 64 + b4 mod 64) utf8_initial"
    using assms(9,10)
    by (subst handler_trail) (simp_all add: st1_def st2_def st3_def utf8_initial_def)
  then have "utf8_decode st3 (b4 # rest) =
      (((b1 mod 8 * 64 + b2 mod 64) * 64 + b3 mod 64) * 64 + b4 mod 64)
      # utf8_decode utf8_initial rest"
    by (rule decode_CodePoint)
  with a b c show ?thesis by simp
qed

lemma mod_offset:
  assumes "m \<le> (b::nat)" "b < m + n" "n dvd m"
  shows "b mod n = b - m"
proof -
  obtain k where k: "b = m + k"
    using assms(1) le_Suc_ex by blast
  obtain j where j: "m = n * j"
    using assms(3) by (elim dvdE)
  have "k < n"
    using assms(2) k by simp
  then show ?thesis
    by (simp add: k j)
qed

lemma decode_2':
  assumes "0xC2 \<le> b1" "b1 \<le> 0xDF" "0x80 \<le> b2" "b2 \<le> 0xBF"
  shows "utf8_decode utf8_initial (b1 # b2 # rest) =
           ((b1 - 0xC0) * 64 + (b2 - 0x80)) # utf8_decode utf8_initial rest"
proof -
  have "b1 mod 32 = b1 - 0xC0" "b2 mod 64 = b2 - 0x80"
    using assms by (simp_all add: mod_offset)
  with decode_2[OF assms, of rest] show ?thesis by simp
qed

lemma decode_3':
  assumes "0xE0 \<le> b1" "b1 \<le> 0xEF"
    and "b1 = 0xE0 \<Longrightarrow> 0xA0 \<le> b2" "b1 = 0xED \<Longrightarrow> b2 \<le> 0x9F" "0x80 \<le> b2" "b2 \<le> 0xBF"
    and "0x80 \<le> b3" "b3 \<le> 0xBF"
  shows "utf8_decode utf8_initial (b1 # b2 # b3 # rest) =
           (((b1 - 0xE0) * 64 + (b2 - 0x80)) * 64 + (b3 - 0x80)) # utf8_decode utf8_initial rest"
proof -
  have "b1 mod 16 = b1 - 0xE0" "b2 mod 64 = b2 - 0x80" "b3 mod 64 = b3 - 0x80"
    using assms(1,2,5-8) by (simp_all add: mod_offset)
  with decode_3[OF assms, of rest] show ?thesis by simp
qed

lemma decode_4':
  assumes "0xF0 \<le> b1" "b1 \<le> 0xF4"
    and "b1 = 0xF0 \<Longrightarrow> 0x90 \<le> b2" "b1 = 0xF4 \<Longrightarrow> b2 \<le> 0x8F" "0x80 \<le> b2" "b2 \<le> 0xBF"
    and "0x80 \<le> b3" "b3 \<le> 0xBF" "0x80 \<le> b4" "b4 \<le> 0xBF"
  shows "utf8_decode utf8_initial (b1 # b2 # b3 # b4 # rest) =
           ((((b1 - 0xF0) * 64 + (b2 - 0x80)) * 64 + (b3 - 0x80)) * 64 + (b4 - 0x80))
           # utf8_decode utf8_initial rest"
proof -
  have "b1 mod 8 = b1 - 0xF0" "b2 mod 64 = b2 - 0x80" "b3 mod 64 = b3 - 0x80"
    "b4 mod 64 = b4 - 0x80"
    using assms(1,2,5-10) by (simp_all add: mod_offset)
  with decode_4[OF assms, of rest] show ?thesis by simp
qed

lemma decode_utf8_bytes:
  assumes "scalar cp"
  shows "utf8_decode utf8_initial (utf8_bytes cp @ rest) = cp # utf8_decode utf8_initial rest"
proof -
  define c where "c = cp mod 64"
  define q where "q = cp div 64"
  define b where "b = q mod 64"
  define r where "r = q div 64"
  define a where "a = r mod 64"
  define z where "z = r div 64"
  have cp: "cp = q * 64 + c" and c: "c < 64"
    by (simp_all add: c_def q_def)
  have q: "q = r * 64 + b" and b: "b < 64"
    by (simp_all add: b_def r_def)
  have r: "r = z * 64 + a" and a: "a < 64"
    by (simp_all add: a_def z_def)
  have r4096: "cp div 4096 = r"
    unfolding r_def q_def by (simp add: div_mult2_eq[symmetric])
  have z262144: "cp div 262144 = z"
    unfolding z_def r_def q_def by (simp add: div_mult2_eq[symmetric])
  consider "cp < 0x80" | "0x80 \<le> cp" "cp < 0x800" | "0x800 \<le> cp" "cp < 0x10000"
    | "0x10000 \<le> cp" "cp < 0x110000"
    using assms unfolding scalar_def by fastforce
  then show ?thesis
  proof cases
    case 1
    then show ?thesis
      by (simp add: utf8_bytes_def decode_1)
  next
    case 2
    have bytes: "utf8_bytes cp = [0xC0 + q, 0x80 + c]"
      using 2 by (simp add: utf8_bytes_def q_def c_def)
    have "2 \<le> q" "q < 32"
      using 2 cp c by arith+
    then have "utf8_decode utf8_initial ((0xC0 + q) # (0x80 + c) # rest) =
        ((0xC0 + q - 0xC0) * 64 + (0x80 + c - 0x80)) # utf8_decode utf8_initial rest"
      using c by (intro decode_2') simp_all
    then show ?thesis
      unfolding bytes by (simp add: cp[symmetric])
  next
    case 3
    have bytes: "utf8_bytes cp = [0xE0 + r, 0x80 + b, 0x80 + c]"
      using 3 by (simp add: utf8_bytes_def r4096 b_def q_def c_def)
    have rng: "r < 16" "r = 0 \<Longrightarrow> 32 \<le> b" "r = 13 \<Longrightarrow> b < 32"
      using 3 assms cp c q b unfolding scalar_def by arith+
    have "utf8_decode utf8_initial ((0xE0 + r) # (0x80 + b) # (0x80 + c) # rest) =
        (((0xE0 + r - 0xE0) * 64 + (0x80 + b - 0x80)) * 64 + (0x80 + c - 0x80))
        # utf8_decode utf8_initial rest"
      using rng b c by (intro decode_3') simp_all
    then show ?thesis
      unfolding bytes by (simp add: cp[symmetric] q[symmetric])
  next
    case 4
    have bytes: "utf8_bytes cp = [0xF0 + z, 0x80 + a, 0x80 + b, 0x80 + c]"
      using 4 by (simp add: utf8_bytes_def z262144 r4096[symmetric] a_def b_def q_def c_def)
    have rng: "z \<le> 4" "z = 0 \<Longrightarrow> 16 \<le> a" "z = 4 \<Longrightarrow> a < 16"
      using 4 cp c q b r a by arith+
    have "utf8_decode utf8_initial ((0xF0 + z) # (0x80 + a) # (0x80 + b) # (0x80 + c) # rest) =
        ((((0xF0 + z - 0xF0) * 64 + (0x80 + a - 0x80)) * 64 + (0x80 + b - 0x80)) * 64
          + (0x80 + c - 0x80)) # utf8_decode utf8_initial rest"
      using rng a b c by (intro decode_4') simp_all
    then show ?thesis
      unfolding bytes by (simp add: cp[symmetric] q[symmetric] r[symmetric])
  qed
qed

subsection \<open>\<^verbatim>\<open>TextDecoder\<close> after \<^verbatim>\<open>TextEncoder\<close>\<close>

lemma surrogate_unat:
  "is_surrogate c = (0xD800 \<le> unat c \<and> unat c \<le> 0xDFFF)"
  "is_high_surrogate c = (0xD800 \<le> unat c \<and> unat c \<le> 0xDBFF)"
  "is_low_surrogate c = (0xDC00 \<le> unat c \<and> unat c \<le> 0xDFFF)"
  by (simp_all add: is_surrogate_def is_high_surrogate_def is_low_surrogate_def word_le_nat_alt)

lemma unat_jschar_less: "unat (c :: jschar) < 65536"
  using unsigned_less[of c, where ?'a = nat] by simp

lemma scalar_unit: "\<not> is_surrogate c \<Longrightarrow> scalar (unat c)"
  using unat_jschar_less[of c] by (simp add: scalar_def surrogate_unat)

lemma scalar_pair:
  assumes "is_high_surrogate c" "is_low_surrogate d"
  shows "scalar (0x10000 + (unat c - 0xD800) * 0x400 + (unat d - 0xDC00))"
  using assms unfolding scalar_def surrogate_unat by arith

lemma code_points_scalar: "well_formed s \<Longrightarrow> \<forall>cp\<in>set (code_points s). scalar cp"
  by (induction s rule: code_points.induct) (auto simp: scalar_unit scalar_pair split: if_splits)

lemma units_pair:
  assumes "is_high_surrogate c" "is_low_surrogate d"
  shows "utf16_units (0x10000 + (unat c - 0xD800) * 0x400 + (unat d - 0xDC00)) = [c, d]"
proof -
  define h where "h = unat c - 0xD800"
  define l where "l = unat d - 0xDC00"
  have h: "unat c = 0xD800 + h" and l: "unat d = 0xDC00 + l" and "l < 0x400"
    using assms unfolding surrogate_unat h_def l_def by arith+
  then have "(h * 0x400 + l) div 0x400 = h" "(h * 0x400 + l) mod 0x400 = l"
    by simp_all
  moreover have "of_nat (unat c) = c" "of_nat (unat d) = d"
    by simp_all
  then have "of_nat (0xD800 + h) = c" "of_nat (0xDC00 + l) = d"
    unfolding h l by simp_all
  ultimately show ?thesis
    unfolding utf16_units_def h_def[symmetric] l_def[symmetric] by simp
qed

lemma units_code_points: "well_formed s \<Longrightarrow> concat (map utf16_units (code_points s)) = s"
proof (induction s rule: code_points.induct)
  case 1
  then show ?case by simp
next
  case (2 c)
  then show ?case
    using unat_jschar_less[of c] by (simp add: utf16_units_def)
next
  case (3 c d cs)
  show ?case
  proof (cases "is_high_surrogate c \<and> is_low_surrogate d")
    case True
    then show ?thesis
      using 3 by (simp add: units_pair)
  next
    case False
    with "3.prems" have ns: "\<not> is_surrogate c" and wf: "well_formed (d # cs)"
      by simp_all
    have "code_points (c # d # cs) = unat c # code_points (d # cs)"
      using False ns by auto
    moreover have "utf16_units (unat c) = [c]"
      using unat_jschar_less[of c] by (simp add: utf16_units_def)
    ultimately show ?thesis
      using "3.IH"(2)[OF False wf] by simp
  qed
qed

lemma utf8_bytes_byte: "cp < 0x110000 \<Longrightarrow> b \<in> set (utf8_bytes cp) \<Longrightarrow> b < 256"
  by (auto simp: utf8_bytes_def split: if_splits)

lemma unat_of_nat_bytes:
  "\<forall>b\<in>set bs. b < 256 \<Longrightarrow> map unat (map of_nat bs :: byte list) = bs"
  by (induction bs) (simp_all add: unat_of_nat)

lemma encoded_bytes:
  assumes "well_formed s"
  shows "map unat (TextEncoder_encode s) = concat (map utf8_bytes (code_points s))"
proof -
  have "\<forall>b\<in>set (concat (map utf8_bytes (code_points s))). b < 256"
    using code_points_scalar[OF assms] by (auto simp: scalar_def dest: utf8_bytes_byte)
  then show ?thesis
    unfolding TextEncoder_encode_def by (rule unat_of_nat_bytes)
qed

lemma decode_concat:
  "\<forall>cp\<in>set cps. scalar cp \<Longrightarrow> utf8_decode utf8_initial (concat (map utf8_bytes cps)) = cps"
proof (induction cps)
  case Nil
  then show ?case by (simp add: utf8_decode.simps utf8_initial_def)
next
  case (Cons cp cps)
  then show ?case by (simp add: decode_utf8_bytes)
qed

lemma code_points_hd:
  "\<not> is_surrogate c \<Longrightarrow> code_points (c # cs) = unat c # code_points cs"
  by (cases cs) (auto simp: surrogate_unat)

lemma TextDecoder_TextEncoder:
  assumes "well_formed (c # cs)" "\<not> is_surrogate c" "c \<noteq> 0xFEFF"
  shows "TextDecoder_decode (TextEncoder_encode (c # cs)) = c # cs"
proof -
  have "utf8_decode utf8_initial (map unat (TextEncoder_encode (c # cs))) = code_points (c # cs)"
    unfolding encoded_bytes[OF assms(1)]
    by (rule decode_concat[OF code_points_scalar[OF assms(1)]])
  moreover have "unat c \<noteq> 0xFEFF"
    using assms(3) by (simp add: word_unat_eq_iff)
  then have "strip_bom (code_points (c # cs)) = code_points (c # cs)"
    using assms(2) by (simp add: code_points_hd strip_bom_def)
  ultimately show ?thesis
    unfolding TextDecoder_decode_def using units_code_points[OF assms(1)] by simp
qed

subsection \<open>The lexer on quoted strings and decimal numbers\<close>


lemma unat_hex_digit: "k < 16 \<Longrightarrow> unat (hex_digit k) = (if k < 10 then 48 + k else 87 + k)"
  by (simp add: hex_digit_def unat_of_nat del: of_nat_add)

lemma hex_value_unat:
  "hex_value c =
     (if 0x30 \<le> unat c \<and> unat c \<le> 0x39 then Some (unat c - 0x30)
      else if 0x61 \<le> unat c \<and> unat c \<le> 0x66 then Some (unat c - 0x61 + 10)
      else if 0x41 \<le> unat c \<and> unat c \<le> 0x46 then Some (unat c - 0x41 + 10)
      else None)"
  by (simp add: hex_value_def word_le_nat_alt)

lemma hex_value_hex_digit: "k < 16 \<Longrightarrow> hex_value (hex_digit k) = Some k"
  by (simp add: hex_value_unat unat_hex_digit)

lemma hex4_UnicodeEscape:
  "hex4 (hex_digit (unat c div 4096)) (hex_digit (unat c div 256 mod 16))
        (hex_digit (unat c div 16 mod 16)) (hex_digit (unat c mod 16)) = Some (c :: jschar)"
proof -
  define n where "n = unat c"
  have "n div 4096 < 16"
    using unat_jschar_less[of c] by (simp add: n_def)
  moreover have "((n div 4096 * 16 + n div 256 mod 16) * 16 + n div 16 mod 16) * 16 + n mod 16 = n"
  proof -
    define p where "p = n div 16"
    define q where "q = p div 16"
    have "n div 256 = q" "n div 4096 = q div 16"
      unfolding q_def p_def by (simp_all add: div_mult2_eq[symmetric])
    moreover have "n = p * 16 + n mod 16" "p = q * 16 + p mod 16" "q = q div 16 * 16 + q mod 16"
      by (simp_all add: p_def q_def)
    ultimately show ?thesis
      unfolding p_def[symmetric] by metis
  qed
  ultimately show ?thesis
    unfolding n_def[symmetric] by (simp add: hex4_def hex_value_hex_digit n_def)
qed

lemma lex_string_UnicodeEscape:
  "lex_string (UnicodeEscape c @ xs) = cons_char c (lex_string xs)"
  by (simp add: UnicodeEscape_def Let_def lex_string.simps hex4_UnicodeEscape)

lemma lex_string_plain:
  "c \<noteq> 0x22 \<Longrightarrow> c \<noteq> 0x5C \<Longrightarrow> \<not> c < 0x20 \<Longrightarrow> lex_string (c # xs) = cons_char c (lex_string xs)"
  by (simp add: lex_string.simps)

lemma lex_string_quote_unit: "lex_string (quote_unit c @ xs) = cons_char c (lex_string xs)"
  by (simp add: quote_unit_def lex_string_UnicodeEscape lex_string.simps simple_escape_def)

lemma surrogate_plain:
  assumes "is_surrogate c"
  shows "c \<noteq> 0x22" "c \<noteq> 0x5C" "\<not> c < 0x20"
  using assms by (auto simp: surrogate_unat word_less_nat_alt word_unat_eq_iff)

lemma lex_string_quote_body: "lex_string (quote_body t @ 0x22 # rest) = Some (t, rest)"
proof (induction t rule: quote_body.induct)
  case 1
  then show ?case by (simp add: lex_string.simps)
next
  case (2 c)
  then show ?case
    by (simp add: lex_string_quote_unit lex_string.simps cons_char_def)
next
  case (3 c d cs)
  show ?case
  proof (cases "is_high_surrogate c \<and> is_low_surrogate d")
    case True
    then have "is_surrogate c" "is_surrogate d"
      by (auto simp: surrogate_unat)
    then have "lex_string (c # d # quote_body cs @ 0x22 # rest)
        = cons_char c (cons_char d (lex_string (quote_body cs @ 0x22 # rest)))"
      by (simp only: lex_string_plain[OF surrogate_plain])
    then show ?thesis
      using True "3.IH"(1)[OF True] by (simp add: cons_char_def)
  next
    case False
    then have "quote_body (c # d # cs) = quote_unit c @ quote_body (d # cs)"
      by auto
    then show ?thesis
      using "3.IH"(2)[OF False] by (simp add: lex_string_quote_unit cons_char_def)
  qed
qed

lemma is_digit_unat: "is_digit c = (48 \<le> unat c \<and> unat c \<le> 57)"
  by (simp add: is_digit_def word_le_nat_alt)

lemma decimal_digits: "\<forall>c\<in>set (decimal n). is_digit c"
proof (induction n rule: decimal.induct)
  case (1 n)
  then show ?case
    by (subst decimal.simps) (auto simp: is_digit_unat unat_of_nat simp del: of_nat_add)
qed

lemma decimal_not_Nil: "decimal n \<noteq> []"
  by (subst decimal.simps) simp

lemma digits_value_snoc: "digits_value (ds @ [c]) = 10 * digits_value ds + (unat c - 48)"
  by (simp add: digits_value_def)

lemma digits_value_decimal: "digits_value (decimal n) = n"
proof (induction n rule: decimal.induct)
  case (1 n)
  show ?case
  proof (cases "n < 10")
    case True
    then show ?thesis
      by (subst decimal.simps) (simp add: digits_value_def unat_of_nat del: of_nat_add)
  next
    case False
    then have "digits_value (decimal (n div 10)) = n div 10"
      using 1 by simp
    moreover have "unat (of_nat (48 + n mod 10) :: jschar) - 48 = n mod 10"
      by (simp add: unat_of_nat del: of_nat_add)
    ultimately show ?thesis
      using False by (subst decimal.simps) (simp add: digits_value_snoc del: of_nat_add)
  qed
qed

lemma decimal_leading_zero: "decimal n = 0x30 # r \<Longrightarrow> r = []"
proof (induction n arbitrary: r rule: decimal.induct)
  case (1 n)
  show ?case
  proof (cases "n < 10")
    case True
    then show ?thesis
      using "1.prems" by (subst (asm) decimal.simps) simp
  next
    case False
    obtain d ds where d: "decimal (n div 10) = d # ds"
      using decimal_not_Nil[of "n div 10"] by (cases "decimal (n div 10)") auto
    have "decimal n = d # ds @ [of_nat (48 + n mod 10)]"
      using False d by (subst decimal.simps) simp
    with "1.prems" have "d = 0x30"
      by simp
    with d "1.IH"[OF False] have "ds = []"
      by simp
    with d \<open>d = 0x30\<close> have "digits_value (decimal (n div 10)) = 0"
      by (simp add: digits_value_def)
    then have "n div 10 = 0"
      by (simp add: digits_value_decimal)
    with False show ?thesis
      by simp
  qed
qed

lemma lex_number_decimal:
  "lex_number (decimal n @ 0x7D # rest) = Some (JNum False n 0, 0x7D # rest)"
proof -
  obtain d r where d: "decimal n = d # r"
    using decimal_not_Nil[of n] by (cases "decimal n") auto
  have dig: "is_digit d" "\<forall>c\<in>set r. is_digit c"
    using decimal_digits[of n] d by simp_all
  have nd: "\<not> is_digit 0x7D"
    by (simp add: is_digit_def)
  have tw: "takeWhile is_digit (r @ 0x7D # rest) = r" "dropWhile is_digit (r @ 0x7D # rest) = 0x7D # rest"
    using dig(2) nd by (simp_all add: takeWhile_append2 dropWhile_append2)
  have "d \<noteq> 0x2D"
    using dig(1) by (auto simp: is_digit_unat)
  have int: "lex_int (d # r @ 0x7D # rest) = Some (d # r, 0x7D # rest)"
  proof (cases "d = 0x30")
    case True
    with d have "r = []"
      by (simp add: decimal_leading_zero)
    with True show ?thesis
      by (simp add: lex_int_def)
  next
    case False
    then show ?thesis
      using dig(1) tw by (simp add: lex_int_def)
  qed
  have "lex_frac (0x7D # rest) = Some ([], 0x7D # rest)" "lex_exp (0x7D # rest) = Some (0, 0x7D # rest)"
    by (simp_all add: lex_frac_def lex_exp_def)
  with int \<open>d \<noteq> 0x2D\<close> have "lex_number (d # r @ 0x7D # rest) =
      Some (JNum False (digits_value (d # r)) 0, 0x7D # rest)"
    by (simp add: lex_number_def)
  then show ?thesis
    using digits_value_decimal[of n] by (simp add: d)
qed

lemma lex_decimal:
  "lex (decimal n @ 0x7D # rest) = cons_token (TNumber (JNum False n 0)) (lex (0x7D # rest))"
proof -
  obtain d r where d: "decimal n = d # r"
    using decimal_not_Nil[of n] by (cases "decimal n") auto
  have dig: "is_digit d"
    using decimal_digits[of n] d by simp
  then have "\<not> is_json_ws d" "d \<noteq> 0x7B" "d \<noteq> 0x7D" "d \<noteq> 0x5B" "d \<noteq> 0x5D" "d \<noteq> 0x3A"
    "d \<noteq> 0x2C" "d \<noteq> 0x22"
    by (auto simp: is_digit_unat is_json_ws_def)
  with dig have "lex (d # r @ 0x7D # rest) =
      (case lex_number (d # r @ 0x7D # rest) of
         None \<Rightarrow> None
       | Some (n, rest) \<Rightarrow> cons_token (TNumber n) (lex rest))"
    by (simp add: lex.simps)
  then show ?thesis
    using lex_number_decimal[of n rest] by (simp add: d)
qed

lemma lex_quoted:
  "lex (QuoteJSONString t @ rest) = cons_token (TString t) (lex rest)"
  by (simp add: QuoteJSONString_def lex.simps is_json_ws_def lex_string_quote_body)

lemma quote_ascii:
  "QuoteJSONString (js ''type'') = js ''\"type\"''"
  "QuoteJSONString (js ''text'') = js ''\"text\"''"
  "QuoteJSONString (js ''ts'') = js ''\"ts\"''"
  by (simp_all add: QuoteJSONString_def js_def quote_unit_def is_surrogate_def is_high_surrogate_def)

lemma stringify_quoted:
  "stringify_user_command t now =
     [0x7B] @ QuoteJSONString (js ''type'') @ [0x3A] @ QuoteJSONString (js ''user_command'')
     @ [0x2C] @ QuoteJSONString (js ''text'') @ [0x3A] @ QuoteJSONString t
     @ [0x2C] @ QuoteJSONString (js ''ts'') @ [0x3A] @ decimal now @ [0x7D]"
  unfolding quote_ascii by (simp add: stringify_user_command_def js_def)

lemma lex_stringify:
  "lex (stringify_user_command t now) = Some (user_command_tokens t now)"
  unfolding stringify_quoted
  by (simp add: lex_quoted lex_decimal lex.simps is_json_ws_def is_digit_def cons_token_def
      user_command_tokens_def)

lemma parse_user_command_tokens:
  "parse_tokens PValue [] (user_command_tokens t now) =
     Some (JObject [(js ''type'', JString (js ''user_command'')), (js ''text'', JString t),
                    (js ''ts'', JNumber (JNum False now 0))])"
  by (simp add: user_command_tokens_def begin_value_def)

lemma JSON_parse_stringify:
  "JSON_parse (stringify_user_command t now) =
     Some (JObject [(js ''type'', JString (js ''user_command'')), (js ''text'', JString t),
                    (js ''ts'', JNumber (JNum False now 0))])"
  by (simp add: JSON_parse_def lex_stringify parse_user_command_tokens)

subsection \<open>The stringified command is well-formed UTF-16\<close>

lemma high_low_surrogate: "is_high_surrogate c \<Longrightarrow> is_surrogate c" "is_low_surrogate c \<Longrightarrow> is_surrogate c"
  by (auto simp: surrogate_unat)

lemma well_formed_Cons: "\<not> is_surrogate c \<Longrightarrow> well_formed (c # s) = well_formed s"
  by (cases s) (auto dest: high_low_surrogate)

lemma well_formed_append: "well_formed a \<Longrightarrow> well_formed (a @ b) = well_formed b"
proof (induction a rule: well_formed.induct)
  case 1
  then show ?case by simp
next
  case (2 c)
  then show ?case by (simp add: well_formed_Cons)
next
  case (3 c d cs)
  then show ?case by (auto split: if_splits)
qed

lemma well_formed_plain: "\<forall>c\<in>set s. \<not> is_surrogate c \<Longrightarrow> well_formed s"
  by (induction s) (simp_all add: well_formed_Cons)

lemma hex_digit_plain: "k < 16 \<Longrightarrow> \<not> is_surrogate (hex_digit k)"
  by (simp add: surrogate_unat unat_hex_digit)

lemma quote_unit_plain: "\<forall>x\<in>set (quote_unit c). \<not> is_surrogate x"
proof -
  have "unat c div 4096 < 16"
    using unat_jschar_less[of c] by simp
  then show ?thesis
    by (simp add: quote_unit_def UnicodeEscape_def Let_def hex_digit_plain)
      (simp add: is_surrogate_def)
qed

lemma well_formed_quote_body: "well_formed (quote_body t)"
proof (induction t rule: quote_body.induct)
  case 1
  then show ?case by simp
next
  case (2 c)
  then show ?case
    by (simp add: well_formed_plain quote_unit_plain)
next
  case (3 c d cs)
  then show ?case
    by (auto simp: well_formed_append well_formed_plain quote_unit_plain)
qed

lemma well_formed_quoted: "well_formed (QuoteJSONString t @ rest) = well_formed rest"
proof -
  have "\<not> is_surrogate 0x22"
    by (simp add: is_surrogate_def)
  then show ?thesis
    by (simp add: QuoteJSONString_def well_formed_Cons well_formed_append well_formed_quote_body)
qed

lemma well_formed_decimal: "well_formed (decimal n @ rest) = well_formed rest"
proof -
  have "\<forall>c\<in>set (decimal n). \<not> is_surrogate c"
    using decimal_digits[of n] by (auto simp: is_digit_unat surrogate_unat)
  then show ?thesis
    by (simp add: well_formed_append well_formed_plain)
qed

lemma well_formed_stringify: "well_formed (stringify_user_command t now)"
  unfolding stringify_quoted
  by (simp add: well_formed_quoted well_formed_decimal well_formed_Cons is_surrogate_def)

lemma decode_encode_user_command:
  "TextDecoder_decode (encode_user_command t now) = stringify_user_command t now"
proof -
  obtain rest where s: "stringify_user_command t now = 0x7B # rest"
    by (simp add: stringify_quoted)
  have "well_formed (0x7B # rest)"
    using well_formed_stringify[of t now] by (simp add: s)
  moreover have "\<not> is_surrogate 0x7B" "(0x7B :: jschar) \<noteq> 0xFEFF"
    by (simp_all add: is_surrogate_def)
  ultimately show ?thesis
    unfolding encode_user_command_def s by (rule TextDecoder_TextEncoder)
qed

subsection \<open>The round trip\<close>

text \<open>
  Claim C6. For every text \<open>t\<close> and time stamp, the bytes that encode the UserCommand
  decode, by \<^verbatim>\<open>TextDecoder\<close> and \<^verbatim>\<open>JSON.parse\<close>, to an object whose \<^verbatim>\<open>type\<close> is
  \<^verbatim>\<open>user_command\<close> and whose \<^verbatim>\<open>text\<close> is \<open>t\<close>. A tool other than the email tool,
  triggered while connected, and a non-blank chat message sent while connected, each
  publish exactly these bytes, with \<^verbatim>\<open>true\<close> as the second argument of
  \<^verbatim>\<open>publishData\<close>, and nothing is published otherwise. The claim is that the send is
  made in the reliable mode. The room client reads the mode off the \<^verbatim>\<open>reliable\<close>
  property of that argument; \<^verbatim>\<open>true\<close> has no such property, so the packet is sent
  lossy, where \<^verbatim>\<open>{ reliable: true }\<close> would have sent it reliable.
\<close>

theorem user_command_published_lossy:
  "JSON_parse (TextDecoder_decode (encode_user_command t now)) =
     Some (JObject [(js ''type'', JString (js ''user_command'')), (js ''text'', JString t),
                    (js ''ts'', JNumber (JNum False now 0))])
   \<and> (\<exists>data. JSON_parse (TextDecoder_decode (encode_user_command t now)) = Some data
         \<and> get_prop data (js ''type'') = Some (Some (JString (js ''user_command'')))
         \<and> get_prop data (js ''text'') = Some (Some (JString t)))
   \<and> effects (triggerTool now now' published tool w) =
       (if connected w \<and> room w \<noteq> None \<and> key tool \<noteq> js ''send_email''
        then effects w @ [PublishData (encode_user_command (prompt tool) now) (JBool True)]
        else effects w)
   \<and> effects (sendMessage n n' now published w) =
       (if trim (inputMessage w) \<noteq> [] \<and> connected w \<and> room w \<noteq> None
        then effects w @ [PublishData (encode_user_command (inputMessage w) now) (JBool True)]
        else effects w)
   \<and> publishData_kind (JBool True) = Some LOSSY
   \<and> publishData_kind (JObject [(js ''reliable'', JBool True)]) = Some RELIABLE"
proof -
  let ?data = "JObject [(js ''type'', JString (js ''user_command'')), (js ''text'', JString t),
                        (js ''ts'', JNumber (JNum False now 0))]"
  have parse: "JSON_parse (TextDecoder_decode (encode_user_command t now)) = Some ?data"
    by (simp only: decode_encode_user_command JSON_parse_stringify)
  have props: "get_prop ?data (js ''type'') = Some (Some (JString (js ''user_command'')))"
    "get_prop ?data (js ''text'') = Some (Some (JString t))"
    by (simp_all add: get_prop_def own_prop_def js_def)
  have tool: "effects (triggerTool now now' published tool w) =
       (if connected w \<and> room w \<noteq> None \<and> key tool \<noteq> js ''send_email''
        then effects w @ [PublishData (encode_user_command (prompt tool) now) (JBool True)]
        else effects w)"
    by (auto simp: triggerTool_def do_effect_def setLogs_def Let_def split: outcome.splits)
  have chat: "effects (sendMessage n n' now published w) =
       (if trim (inputMessage w) \<noteq> [] \<and> connected w \<and> room w \<noteq> None
        then effects w @ [PublishData (encode_user_command (inputMessage w) now) (JBool True)]
        else effects w)"
    by (auto simp: sendMessage_def do_effect_def Let_def split: outcome.splits)
  have kind: "publishData_kind (JBool True) = Some LOSSY"
    "publishData_kind (JObject [(js ''reliable'', JBool True)]) = Some RELIABLE"
    by (simp_all add: publishData_kind_def get_prop_def own_prop_def truthy_def js_def)
  from parse props tool chat kind show ?thesis
    by blast
qed

theorem user_command_published_lossy_witness:
  "encode_user_command (js ''Open calculator'') 7 =
     ascii_bytes ''{\"type\":\"user_command\",\"text\":\"Open calculator\",\"ts\":7}''
   \<and> JSON_parse (TextDecoder_decode (encode_user_command (js ''Open calculator'') 7)) =
     Some (JObject [(js ''type'', JString (js ''user_command'')),
                    (js ''text'', JString (js ''Open calculator'')),
                    (js ''ts'', JNumber (JNum False 7 0))])
   \<and> effects (triggerTool 7 8 (Resolved ()) (tools ! 3) connected_app) =
     [PublishData (encode_user_command (js ''Open calculator'') 7) (JBool True)]
   \<and> effects (sendMessage 5 6 7 (Resolved ()) typing_app) =
     [PublishData (encode_user_command (js ''hi'') 7) (JBool True)]
   \<and> publishData_kind (JBool True) = Some LOSSY"
proof -
  have bytes: "encode_user_command (js ''Open calculator'') 7 =
      ascii_bytes ''{\"type\":\"user_command\",\"text\":\"Open calculator\",\"ts\":7}''"
    by (simp add: encode_user_command_def stringify_user_command_def TextEncoder_encode_def
        js_def QuoteJSONString_def quote_unit_def is_surrogate_def is_high_surrogate_def
        utf8_bytes_def decimal.simps ascii_bytes_def)
  have c: "connected connected_app" "room connected_app \<noteq> None"
    "key (tools ! 3) \<noteq> js ''send_email''" "prompt (tools ! 3) = js ''Open calculator''"
    "effects connected_app = []"
    by (simp_all add: connected_app_def initial_app_def tools_def js_def)
  have t: "trim (inputMessage typing_app) \<noteq> []" "connected typing_app"
    "room typing_app \<noteq> None" "inputMessage typing_app = js ''hi''" "effects typing_app = []"
    by (simp_all add: typing_app_def connected_app_def initial_app_def trim_def js_def
        is_js_whitespace_def)
  from user_command_published_lossy[where t = "js ''Open calculator''" and now = 7
      and w = connected_app and tool = "tools ! 3" and now' = 8 and published = "Resolved ()"]
    user_command_published_lossy[where now = 7 and w = typing_app and n = 5 and n' = 6
      and published = "Resolved ()"]
    bytes c t
  show ?thesis by simp
qed

end
